theory Spec2Isabelle
  imports Complex_Main
begin

section \<open>The page: a flat document model\<close>

text \<open>
  The script \<^verbatim>\<open>src/js/main.js\<close> works on the browser's document. The model keeps the
  elements of the document in document order, each with the attributes and properties
  the script reads or writes. An element is referred to by its position in that list,
  which stands for the object reference a JavaScript closure captures. The list holds the
  elements of the page as it is served; of an assignment to \<^verbatim>\<open>innerHTML\<close> the model
  keeps the string assigned, not the elements the browser makes of it.

  \<open>tagName\<close> is the lower-case name a selector matches. Numbers read through unary plus
  (\<^verbatim>\<open>+counter.innerText\<close>, \<^verbatim>\<open>+counter.getAttribute('data-count')\<close>) are kept as the
  number they denote, with \<open>None\<close> for NaN. Scroll offsets are reals, layout offsets are
  integers.

  The exceptions the script can meet: a \<^verbatim>\<open>TypeError\<close> from a property of \<^verbatim>\<open>null\<close> or
  \<^verbatim>\<open>undefined\<close>, a \<^verbatim>\<open>SyntaxError\<close> from \<^verbatim>\<open>response.json()\<close>, and the rejection of
  \<^verbatim>\<open>fetch\<close> when the transport fails, named \<open>NetworkError\<close> here.
\<close>

datatype js_error = TypeError | SyntaxError | NetworkError

record element =
  tagName :: string
  elemId :: "string option"
  classList :: "string list"
  href :: "string option"
  innerHTML :: string
  styleDisplay :: string
  styleTransform :: string
  offsetTop :: int
  offsetHeight :: int
  dataCount :: "real option"
  innerText :: "real option"

text \<open>\<^verbatim>\<open>classList.add\<close>, \<^verbatim>\<open>classList.remove\<close>, \<^verbatim>\<open>classList.toggle\<close> on the ordered token set.\<close>

definition classList_add :: "string \<Rightarrow> element \<Rightarrow> element" where
  "classList_add c e = (if c \<in> set (classList e) then e else e\<lparr>classList := classList e @ [c]\<rparr>)"

definition classList_remove :: "string \<Rightarrow> element \<Rightarrow> element" where
  "classList_remove c e = e\<lparr>classList := filter (\<lambda>x. x \<noteq> c) (classList e)\<rparr>"

definition classList_toggle :: "string \<Rightarrow> element \<Rightarrow> element" where
  "classList_toggle c e = (if c \<in> set (classList e) then classList_remove c e else classList_add c e)"

definition hasClass :: "string \<Rightarrow> element \<Rightarrow> bool" where
  "hasClass c e = (c \<in> set (classList e))"

subsection \<open>Listeners\<close>

text \<open>
  A listener is the closure the script passes to \<^verbatim>\<open>addEventListener\<close>: the constructor
  names the closure, its arguments are the element references the closure captured
  (\<open>None\<close> where the captured constant is \<^verbatim>\<open>null\<close>).
\<close>

datatype handler =
    NavToggleClick nat nat
  | NavLinkClick "nat option" "nat option"
  | NavScroll "nat option"
  | BackToTopScroll nat
  | BackToTopClick

datatype target = Window | Elem nat

datatype event = Click | Scroll

datatype listener = Listener target event handler

subsection \<open>The data documents\<close>

text \<open>
  The four documents have the shapes of the data files. The entries of the three arrays
  are typed as the templates read them. The thesis is a single object whose fields are
  JavaScript values, since \<^verbatim>\<open>renderThesis\<close> tests the truthiness of its title and the
  slot starts as the empty object; a missing field is \<open>JUndefined\<close>, a missing
  \<^verbatim>\<open>keyFeatures\<close> is \<open>None\<close>.
\<close>

record lab =
  lab_title :: string
  lab_link :: string

record semester =
  semester_title :: string
  labs :: "lab list"

record education_module =
  module_title :: string
  semesters :: "semester list"

record coursework =
  cw_title :: string
  cw_semester :: string
  cw_description :: string
  technologies :: "string list"
  cw_link :: string

record practical_work =
  pw_title :: string
  pw_semester :: string
  pw_description :: string
  items :: "string list"
  pw_link :: string

datatype jsval = JUndefined | JNull | JBool bool | JNum int | JStr string

record thesis =
  title :: jsval
  topic :: jsval
  description :: jsval
  keyFeatures :: "string list option"
  link :: jsval

subsection \<open>The page state\<close>

text \<open>
  The document, the scroll offset of the window, the four module-level variables of the
  script, and what the script does to its environment: the URLs it passed to
  \<^verbatim>\<open>fetch\<close>, the errors it logged with \<^verbatim>\<open>console.error\<close>, the exceptions no code
  caught, the listeners it registered, the targets the intersection observer of the
  counters observes, the timers it queued with the target each closure holds, and the
  offsets it asked \<^verbatim>\<open>window.scrollTo\<close> for.
\<close>

record page =
  elements :: "element list"
  scrollY :: real
  educationModules :: "education_module list"
  thesisData :: thesis
  courseworks :: "coursework list"
  practicalWorks :: "practical_work list"
  fetched :: "string list"
  console :: "js_error list"
  uncaught :: "js_error list"
  listeners :: "listener list"
  observed :: "nat list"
  timers :: "(nat \<times> real option) list"
  scrollToRequests :: "real list"

fun find_index :: "('a \<Rightarrow> bool) \<Rightarrow> 'a list \<Rightarrow> nat option" where
  "find_index P [] = None"
| "find_index P (x # xs) = (if P x then Some 0 else map_option Suc (find_index P xs))"

definition getElementById :: "string \<Rightarrow> page \<Rightarrow> nat option" where
  "getElementById s p = find_index (\<lambda>e. elemId e = Some s) (elements p)"

text \<open>
  A write to a property of the element at a position. The positions the script writes to
  come from lookups in the same document, so they are in range.
\<close>

definition modify :: "nat \<Rightarrow> (element \<Rightarrow> element) \<Rightarrow> page \<Rightarrow> page" where
  "modify i f p = p\<lparr>elements := (elements p)[i := f (elements p ! i)]\<rparr>"

section \<open>Back to top\<close>

text \<open>
  \<^verbatim>\<open>initBackToTop\<close>: when the button exists, a scroll listener on the window marks it
  visible above 500 pixels and unmarks it otherwise, and a click listener on the button
  asks for a smooth scroll to the top.
\<close>

definition backToTopScroll :: "nat \<Rightarrow> page \<Rightarrow> page" where
  "backToTopScroll b p =
     (if scrollY p > 500 then modify b (classList_add ''visible'') p
      else modify b (classList_remove ''visible'') p)"

definition backToTopClick :: "page \<Rightarrow> page" where
  "backToTopClick p = p\<lparr>scrollToRequests := scrollToRequests p @ [0]\<rparr>"

definition initBackToTop :: "page \<Rightarrow> page" where
  "initBackToTop p =
     (case getElementById ''backToTop'' p of
        None \<Rightarrow> p
      | Some b \<Rightarrow> p\<lparr>listeners := listeners p @
          [Listener Window Scroll (BackToTopScroll b), Listener (Elem b) Click BackToTopClick]\<rparr>)"


section \<open>Navigation\<close>

definition querySelectorAll_class :: "string \<Rightarrow> page \<Rightarrow> nat list" where
  "querySelectorAll_class c p = filter (\<lambda>i. hasClass c (elements p ! i)) [0..<length (elements p)]"

text \<open>\<^verbatim>\<open>document.querySelectorAll('section[id]')\<close>: the section elements that carry an id.\<close>

definition sections_with_id :: "page \<Rightarrow> nat list" where
  "sections_with_id p =
     filter (\<lambda>i. tagName (elements p ! i) = ''section'' \<and> elemId (elements p ! i) \<noteq> None)
       [0..<length (elements p)]"

text \<open>
  \<^verbatim>\<open>document.querySelector(`.nav-link[href="#${sectionId}"]`)\<close>: the first element of class
  \<^verbatim>\<open>nav-link\<close> whose \<^verbatim>\<open>href\<close> attribute is \<^verbatim>\<open>#\<close> followed by the id. Section ids are
  taken to be free of quotes and backslashes, so that the selector is the attribute test
  it is meant to be.
\<close>

definition navLinkFor :: "string \<Rightarrow> page \<Rightarrow> nat option" where
  "navLinkFor sectionId p =
     find_index (\<lambda>e. hasClass ''nav-link'' e \<and> href e = Some (''#'' @ sectionId)) (elements p)"

definition clearActive :: "page \<Rightarrow> page" where
  "clearActive p =
     fold (\<lambda>l. modify l (classList_remove ''active'')) (querySelectorAll_class ''nav-link'' p) p"

text \<open>
  The body of the \<^verbatim>\<open>sections.forEach\<close> callback of \<^verbatim>\<open>updateActiveNavLink\<close>, for the
  scroll offset \<open>y\<close> read before the loop. The sections come from the selector
  \<^verbatim>\<open>section[id]\<close>, so each has an id and the branch for a missing id is never taken.
\<close>

definition sectionStep :: "real \<Rightarrow> nat \<Rightarrow> page \<Rightarrow> page" where
  "sectionStep y i p =
     (let section = elements p ! i;
          sectionHeight = offsetHeight section;
          sectionTop = offsetTop section - 100
      in case elemId section of
           None \<Rightarrow> p
         | Some sectionId \<Rightarrow>
             (let navLink = navLinkFor sectionId p
              in if y > real_of_int sectionTop \<and> y \<le> real_of_int (sectionTop + sectionHeight)
                 then (case navLink of
                         None \<Rightarrow> clearActive p
                       | Some l \<Rightarrow> modify l (classList_add ''active'') (clearActive p))
                 else p))"

definition updateActiveNavLink :: "page \<Rightarrow> page" where
  "updateActiveNavLink p = fold (sectionStep (scrollY p)) (sections_with_id p) p"

text \<open>
  The three closures of \<^verbatim>\<open>initNavigation\<close>. A closure that dereferences a \<^verbatim>\<open>null\<close>
  constant throws a \<^verbatim>\<open>TypeError\<close>; the mutations made before the throw stay.
\<close>

definition navToggleClick :: "nat \<Rightarrow> nat \<Rightarrow> page \<Rightarrow> page" where
  "navToggleClick navToggle navMenu p =
     modify navMenu (classList_toggle ''active'') (modify navToggle (classList_toggle ''active'') p)"

definition navLinkClick :: "nat option \<Rightarrow> nat option \<Rightarrow> page \<Rightarrow> js_error option \<times> page" where
  "navLinkClick navToggle navMenu p =
     (case navToggle of
        None \<Rightarrow> (Some TypeError, p)
      | Some t \<Rightarrow>
          (let p1 = modify t (classList_remove ''active'') p
           in case navMenu of
                None \<Rightarrow> (Some TypeError, p1)
              | Some m \<Rightarrow> (None, modify m (classList_remove ''active'') p1)))"

definition navScroll :: "nat option \<Rightarrow> page \<Rightarrow> js_error option \<times> page" where
  "navScroll navbar p =
     (case navbar of
        None \<Rightarrow> (Some TypeError, p)
      | Some n \<Rightarrow>
          (None, updateActiveNavLink
             (if scrollY p > 100 then modify n (classList_add ''scrolled'') p
              else modify n (classList_remove ''scrolled'') p)))"

definition initNavigation :: "page \<Rightarrow> page" where
  "initNavigation p =
     (let navbar = getElementById ''navbar'' p;
          navToggle = getElementById ''navToggle'' p;
          navMenu = getElementById ''navMenu'' p;
          navLinks = querySelectorAll_class ''nav-link'' p
      in p\<lparr>listeners := listeners p
           @ (case navToggle of
                None \<Rightarrow> []
              | Some t \<Rightarrow> (case navMenu of
                            None \<Rightarrow> []
                          | Some m \<Rightarrow> [Listener (Elem t) Click (NavToggleClick t m)]))
           @ map (\<lambda>l. Listener (Elem l) Click (NavLinkClick navToggle navMenu)) navLinks
           @ [Listener Window Scroll (NavScroll navbar)]\<rparr>)"

section \<open>Dispatching events\<close>

fun run_handler :: "handler \<Rightarrow> page \<Rightarrow> js_error option \<times> page" where
  "run_handler (NavToggleClick t m) p = (None, navToggleClick t m p)"
| "run_handler (NavLinkClick t m) p = navLinkClick t m p"
| "run_handler (NavScroll n) p = navScroll n p"
| "run_handler (BackToTopScroll b) p = (None, backToTopScroll b p)"
| "run_handler BackToTopClick p = (None, backToTopClick p)"

text \<open>
  An event runs the listeners registered for its target and type in the order of their
  registration. An exception a listener throws is reported (recorded in \<open>uncaught\<close>) and
  does not stop the listeners after it. A click is taken on the element that carries the
  listener; the list of elements has no nesting, so no event bubbles.
\<close>

fun invoke :: "target \<Rightarrow> event \<Rightarrow> listener \<Rightarrow> page \<Rightarrow> page" where
  "invoke tg ev (Listener tg' ev' h) p =
     (if tg' = tg \<and> ev' = ev
      then (case run_handler h p of
              (None, p') \<Rightarrow> p'
            | (Some e, p') \<Rightarrow> p'\<lparr>uncaught := uncaught p' @ [e]\<rparr>)
      else p)"

definition dispatch :: "target \<Rightarrow> event \<Rightarrow> page \<Rightarrow> page" where
  "dispatch tg ev p = fold (invoke tg ev) (listeners p) p"

text \<open>The user scrolls to offset \<open>y\<close>: the offset changes, then the scroll event fires.\<close>

definition scrollEvent :: "real \<Rightarrow> page \<Rightarrow> page" where
  "scrollEvent y p = dispatch Window Scroll (p\<lparr>scrollY := y\<rparr>)"

section \<open>Collapsible modules\<close>

text \<open>Decimal digits of a natural number, as a template literal prints an array index.\<close>

definition digit_char :: "nat \<Rightarrow> char" where
  "digit_char d = ''0123456789'' ! (d mod 10)"

function show_nat :: "nat \<Rightarrow> string" where
  "show_nat n = (if n < 10 then [digit_char n] else show_nat (n div 10) @ [digit_char (n mod 10)])"
  by pat_completeness auto
termination
  by (relation "measure id") auto

declare show_nat.simps [simp del]

definition toggleModule :: "nat \<Rightarrow> page \<Rightarrow> page" where
  "toggleModule index p =
     (case getElementById (''module-content-'' @ show_nat index) p of
        None \<Rightarrow> p
      | Some content \<Rightarrow>
          (case getElementById (''module-icon-'' @ show_nat index) p of
             None \<Rightarrow> p
           | Some icon \<Rightarrow>
               (if styleDisplay (elements p ! content) = ''none''
                then modify icon (\<lambda>e. e\<lparr>styleTransform := ''rotate(180deg)''\<rparr>)
                       (modify content (\<lambda>e. e\<lparr>styleDisplay := ''block''\<rparr>) p)
                else modify icon (\<lambda>e. e\<lparr>styleTransform := ''rotate(0deg)''\<rparr>)
                       (modify content (\<lambda>e. e\<lparr>styleDisplay := ''none''\<rparr>) p))))"


section \<open>Counters\<close>

text \<open>
  JavaScript numbers with NaN as \<open>None\<close>: a comparison with NaN is false, arithmetic
  with NaN is NaN. The model computes with exact reals. For the counter the claims are
  about (target 80, step \<open>80 / 200\<close>) the script's floating-point arithmetic gives the
  same values: the displayed values \<open>n\<close> are integers below 80, and the sum of \<open>n\<close> and
  the step is rounded to a number strictly between \<open>n\<close> and \<open>n + 1\<close>, so that
  \<^verbatim>\<open>Math.ceil\<close> gives \<open>n + 1\<close> as it does on the reals.
\<close>

definition js_less :: "real option \<Rightarrow> real option \<Rightarrow> bool" where
  "js_less a b = (case a of None \<Rightarrow> False | Some x \<Rightarrow> (case b of None \<Rightarrow> False | Some y \<Rightarrow> x < y))"

definition js_div :: "real option \<Rightarrow> real \<Rightarrow> real option" where
  "js_div a d = map_option (\<lambda>x. x / d) a"

definition js_add :: "real option \<Rightarrow> real option \<Rightarrow> real option" where
  "js_add a b = (case a of None \<Rightarrow> None | Some x \<Rightarrow> map_option (\<lambda>y. x + y) b)"

definition js_ceil :: "real option \<Rightarrow> real option" where
  "js_ceil a = map_option (\<lambda>x. real_of_int \<lceil>x\<rceil>) a"

definition speed :: real where
  "speed = 200"

text \<open>
  One call of the closure \<^verbatim>\<open>updateCount\<close> for the counter \<open>counter\<close>, with the target
  that \<^verbatim>\<open>animateCounter\<close> read when it started. \<^verbatim>\<open>setTimeout(updateCount, 1)\<close> queues
  the closure; the timers fire in the order they were queued.
\<close>

definition updateCount :: "nat \<Rightarrow> real option \<Rightarrow> page \<Rightarrow> page" where
  "updateCount counter target p =
     (let increment = js_div target speed;
          count = innerText (elements p ! counter)
      in if js_less count target
         then (modify counter (\<lambda>e. e\<lparr>innerText := js_ceil (js_add count increment)\<rparr>) p)
                \<lparr>timers := timers p @ [(counter, target)]\<rparr>
         else modify counter (\<lambda>e. e\<lparr>innerText := target\<rparr>) p)"

definition animateCounter :: "nat \<Rightarrow> page \<Rightarrow> page" where
  "animateCounter counter p = updateCount counter (dataCount (elements p ! counter)) p"

definition fireTimer :: "page \<Rightarrow> page" where
  "fireTimer p =
     (case timers p of
        [] \<Rightarrow> p
      | (counter, target) # rest \<Rightarrow> updateCount counter target (p\<lparr>timers := rest\<rparr>))"

text \<open>Letting the timers run until none is pending; an animation may go on forever.\<close>

partial_function (option) runTimers :: "page \<Rightarrow> page option" where
  "runTimers p = (if timers p = [] then Some p else runTimers (fireTimer p))"

text \<open>
  The intersection observer of \<^verbatim>\<open>initCounters\<close>. Its callback starts the animation of
  every entry that is intersecting and stops observing that entry's target. The browser
  reports entries only for targets the observer observes; the entries of one callback are
  the changes since the callback before, so that one target may have several of them.
\<close>

definition unobserve :: "nat \<Rightarrow> page \<Rightarrow> page" where
  "unobserve t p = p\<lparr>observed := removeAll t (observed p)\<rparr>"

definition counterEntry :: "nat \<times> bool \<Rightarrow> page \<Rightarrow> page" where
  "counterEntry entry p =
     (case entry of (t, isIntersecting) \<Rightarrow>
        if isIntersecting then unobserve t (animateCounter t p) else p)"

definition counterCallback :: "(nat \<times> bool) list \<Rightarrow> page \<Rightarrow> page" where
  "counterCallback entries p = fold counterEntry entries p"

definition deliverIntersections :: "(nat \<times> bool) list \<Rightarrow> page \<Rightarrow> page" where
  "deliverIntersections entries p =
     counterCallback (filter (\<lambda>entry. fst entry \<in> set (observed p)) entries) p"

definition initCounters :: "page \<Rightarrow> page" where
  "initCounters p = p\<lparr>observed := querySelectorAll_class ''stat-number'' p\<rparr>"


section \<open>Rendering\<close>

text \<open>
  Strings are byte strings: the characters of the templates outside ASCII are written
  as the bytes of their UTF-8 encoding. Each definition below is one template literal of
  the script, named after the value it renders; \<^verbatim>\<open>.map(...).join('')\<close> is the
  concatenation of the mapped list.
\<close>

subsection \<open>Education modules\<close>

definition lab_markup :: "lab \<Rightarrow> string" where
  \<open>lab_markup lab =
     ''\<newline>                                <div class="lab-item">''
   @ ''\<newline>                                    <a href="''
   @ lab_link lab
   @ ''" target="_blank">''
   @ ''\<newline>                                        <i class="fas fa-flask"></i>''
   @ ''\<newline>                                        ''
   @ lab_title lab
   @ ''\<newline>                                    </a>''
   @ ''\<newline>                                    <i class="fas fa-external-link-alt"></i>''
   @ ''\<newline>                                </div>''
   @ ''\<newline>                            ''\<close>

definition semester_markup :: "semester \<Rightarrow> string" where
  \<open>semester_markup semester =
     ''\<newline>                    <div class="semester-section">''
   @ ''\<newline>                        <div class="semester-title">''
   @ ''\<newline>                            <i class="fas fa-calendar-alt"></i>''
   @ ''\<newline>                            ''
   @ semester_title semester
   @ ''\<newline>                        </div>''
   @ ''\<newline>                        <div class="labs-list">''
   @ ''\<newline>                            ''
   @ concat (map lab_markup (labs semester))
   @ ''\<newline>                        </div>''
   @ ''\<newline>                    </div>''
   @ ''\<newline>                ''\<close>

text \<open>
  The card of one module, from its opening tag to its closing tag; the template
  surrounds it with the line break and the indentation of the script's source.
\<close>

definition module_element :: "nat \<Rightarrow> education_module \<Rightarrow> string" where
  \<open>module_element index md =
     ''<div class="module-card" data-aos="fade-up" data-aos-delay="''
   @ show_nat (index * 100)
   @ ''">''
   @ ''\<newline>            <div class="module-header" onclick="toggleModule(''
   @ show_nat index
   @ '')">''
   @ ''\<newline>                <div class="module-title">''
   @ ''\<newline>                    <span>''
   @ [CHR 0xF0, CHR 0x9F, CHR 0x93, CHR 0x9A]
   @ '' ''
   @ module_title md
   @ ''</span>''
   @ ''\<newline>                    <span class="module-toggle">''
   @ ''\<newline>                        <i class="fas fa-chevron-down" id="module-icon-''
   @ show_nat index
   @ ''"></i>''
   @ ''\<newline>                    </span>''
   @ ''\<newline>                </div>''
   @ ''\<newline>            </div>''
   @ ''\<newline>            <div class="module-content" id="module-content-''
   @ show_nat index
   @ ''" style="display: none;">''
   @ ''\<newline>                ''
   @ concat (map semester_markup (semesters md))
   @ ''\<newline>            </div>''
   @ ''\<newline>        </div>''\<close>

definition module_markup :: "nat \<Rightarrow> education_module \<Rightarrow> string" where
  \<open>module_markup index md =
     ''\<newline>        '' @ module_element index md @ ''\<newline>    ''\<close>

definition modules_markup :: "education_module list \<Rightarrow> string" where
  "modules_markup xs = concat (map (\<lambda>(index, md). module_markup index md) (enumerate 0 xs))"

definition renderEducationModules :: "page \<Rightarrow> page" where
  "renderEducationModules p =
     (case getElementById ''educationModules'' p of
        None \<Rightarrow> p
      | Some container \<Rightarrow>
          if length (educationModules p) = 0 then p
          else modify container
                 (\<lambda>e. e\<lparr>innerHTML := modules_markup (educationModules p)\<rparr>) p)"

subsection \<open>Courseworks\<close>

definition tech_markup :: "string \<Rightarrow> string" where
  \<open>tech_markup tech =
     ''\<newline>                        <span class="tech-tag">''
   @ tech
   @ ''</span>''
   @ ''\<newline>                    ''\<close>

definition coursework_element :: "nat \<Rightarrow> coursework \<Rightarrow> string" where
  \<open>coursework_element index work =
     ''<div class="work-card" data-aos="fade-up" data-aos-delay="''
   @ show_nat (index * 100)
   @ ''">''
   @ ''\<newline>            <div class="work-header">''
   @ ''\<newline>                <h3 class="work-title">''
   @ cw_title work
   @ ''</h3>''
   @ ''\<newline>                <span class="work-semester">''
   @ ''\<newline>                    <i class="fas fa-calendar"></i>''
   @ ''\<newline>                    ''
   @ cw_semester work
   @ ''\<newline>                </span>''
   @ ''\<newline>            </div>''
   @ ''\<newline>            <p class="work-description">''
   @ cw_description work
   @ ''</p>''
   @ ''\<newline>            <div class="work-technologies">''
   @ ''\<newline>                <strong>''
   @ [CHR 0xD0, CHR 0xA2, CHR 0xD0, CHR 0xB5, CHR 0xD1, CHR 0x85, CHR 0xD0, CHR 0xBD, CHR 0xD0, CHR 0xBE, CHR 0xD0, CHR 0xBB, CHR 0xD0, CHR 0xBE, CHR 0xD0, CHR 0xB3, CHR 0xD0, CHR 0xB8, CHR 0xD0, CHR 0xB8]
   @ '':</strong>''
   @ ''\<newline>                <div class="tech-tags">''
   @ ''\<newline>                    ''
   @ concat (map tech_markup (technologies work))
   @ ''\<newline>                </div>''
   @ ''\<newline>            </div>''
   @ ''\<newline>            <a href="''
   @ cw_link work
   @ ''" class="work-link" target="_blank">''
   @ ''\<newline>                ''
   @ [CHR 0xD0, CHR 0x9F, CHR 0xD0, CHR 0xBE, CHR 0xD0, CHR 0xB4, CHR 0xD1, CHR 0x80, CHR 0xD0, CHR 0xBE, CHR 0xD0, CHR 0xB1, CHR 0xD0, CHR 0xBD, CHR 0xD0, CHR 0xB5, CHR 0xD0, CHR 0xB5]
   @ ''\<newline>                <i class="fas fa-arrow-right"></i>''
   @ ''\<newline>            </a>''
   @ ''\<newline>        </div>''\<close>

definition coursework_markup :: "nat \<Rightarrow> coursework \<Rightarrow> string" where
  \<open>coursework_markup index work =
     ''\<newline>        '' @ coursework_element index work @ ''\<newline>    ''\<close>

definition courseworks_markup :: "coursework list \<Rightarrow> string" where
  "courseworks_markup xs = concat (map (\<lambda>(index, work). coursework_markup index work) (enumerate 0 xs))"

definition renderCourseworks :: "page \<Rightarrow> page" where
  "renderCourseworks p =
     (case getElementById ''courseworksList'' p of
        None \<Rightarrow> p
      | Some container \<Rightarrow>
          if length (courseworks p) = 0 then p
          else modify container
                 (\<lambda>e. e\<lparr>innerHTML := courseworks_markup (courseworks p)\<rparr>) p)"

subsection \<open>Practical works\<close>

definition item_markup :: "string \<Rightarrow> string" where
  \<open>item_markup item =
     ''\<newline>                        <div class="item-entry">''
   @ ''\<newline>                            <i class="fas fa-code"></i>''
   @ ''\<newline>                            ''
   @ item
   @ ''\<newline>                        </div>''
   @ ''\<newline>                    ''\<close>

definition practical_element :: "nat \<Rightarrow> practical_work \<Rightarrow> string" where
  \<open>practical_element index work =
     ''<div class="work-card" data-aos="fade-up" data-aos-delay="''
   @ show_nat (index * 100)
   @ ''">''
   @ ''\<newline>            <div class="work-header">''
   @ ''\<newline>                <h3 class="work-title">''
   @ pw_title work
   @ ''</h3>''
   @ ''\<newline>                <span class="work-semester">''
   @ ''\<newline>                    <i class="fas fa-calendar"></i>''
   @ ''\<newline>                    ''
   @ pw_semester work
   @ ''\<newline>                </span>''
   @ ''\<newline>            </div>''
   @ ''\<newline>            <p class="work-description">''
   @ pw_description work
   @ ''</p>''
   @ ''\<newline>            <div class="work-items">''
   @ ''\<newline>                <strong>''
   @ [CHR 0xD0, CHR 0xA0, CHR 0xD0, CHR 0xB0, CHR 0xD0, CHR 0xB1, CHR 0xD0, CHR 0xBE, CHR 0xD1, CHR 0x82, CHR 0xD1, CHR 0x8B]
   @ '':</strong>''
   @ ''\<newline>                <div class="items-list">''
   @ ''\<newline>                    ''
   @ concat (map item_markup (items work))
   @ ''\<newline>                </div>''
   @ ''\<newline>            </div>''
   @ ''\<newline>            <a href="''
   @ pw_link work
   @ ''" class="work-link" target="_blank">''
   @ ''\<newline>                ''
   @ [CHR 0xD0, CHR 0x9E, CHR 0xD1, CHR 0x82, CHR 0xD0, CHR 0xBA, CHR 0xD1, CHR 0x80, CHR 0xD1, CHR 0x8B, CHR 0xD1, CHR 0x82, CHR 0xD1, CHR 0x8C]
   @ '' ''
   @ [CHR 0xD0, CHR 0xB2, CHR 0xD1, CHR 0x81, CHR 0xD0, CHR 0xB5]
   @ '' ''
   @ [CHR 0xD1, CHR 0x80, CHR 0xD0, CHR 0xB0, CHR 0xD0, CHR 0xB1, CHR 0xD0, CHR 0xBE, CHR 0xD1, CHR 0x82, CHR 0xD1, CHR 0x8B]
   @ ''\<newline>                <i class="fas fa-arrow-right"></i>''
   @ ''\<newline>            </a>''
   @ ''\<newline>        </div>''\<close>

definition practical_markup :: "nat \<Rightarrow> practical_work \<Rightarrow> string" where
  \<open>practical_markup index work =
     ''\<newline>        '' @ practical_element index work @ ''\<newline>    ''\<close>

definition practicals_markup :: "practical_work list \<Rightarrow> string" where
  "practicals_markup xs = concat (map (\<lambda>(index, work). practical_markup index work) (enumerate 0 xs))"

definition renderPracticalWorks :: "page \<Rightarrow> page" where
  "renderPracticalWorks p =
     (case getElementById ''practicalsList'' p of
        None \<Rightarrow> p
      | Some container \<Rightarrow>
          if length (practicalWorks p) = 0 then p
          else modify container
                 (\<lambda>e. e\<lparr>innerHTML := practicals_markup (practicalWorks p)\<rparr>) p)"


subsection \<open>Thesis\<close>

text \<open>
  What a template literal prints for a value, and what \<^verbatim>\<open>!\<close> tests. Numbers are the
  integers (printed in decimal, as JavaScript does below \<open>10^21\<close>).
\<close>

fun js_to_string :: "jsval \<Rightarrow> string" where
  "js_to_string JUndefined = ''undefined''"
| "js_to_string JNull = ''null''"
| "js_to_string (JBool b) = (if b then ''true'' else ''false'')"
| "js_to_string (JNum n) = (if n < 0 then ''-'' @ show_nat (nat (- n)) else show_nat (nat n))"
| "js_to_string (JStr s) = s"

fun truthy :: "jsval \<Rightarrow> bool" where
  "truthy JUndefined = False"
| "truthy JNull = False"
| "truthy (JBool b) = b"
| "truthy (JNum n) = (n \<noteq> 0)"
| "truthy (JStr s) = (s \<noteq> [])"

definition feature_element :: "string \<Rightarrow> string" where
  \<open>feature_element feature =
     ''<li>''
   @ ''\<newline>                                <i class="fas fa-check-circle"></i>''
   @ ''\<newline>                                ''
   @ feature
   @ ''\<newline>                            </li>''\<close>

definition feature_markup :: "string \<Rightarrow> string" where
  \<open>feature_markup feature =
     ''\<newline>                            '' @ feature_element feature @ ''\<newline>                        ''\<close>

text \<open>The thesis card up to the items of the feature list, and after them.\<close>

definition thesis_head :: "thesis \<Rightarrow> string" where
  \<open>thesis_head t =
     ''<div class="thesis-card" data-aos="fade-up">''
   @ ''\<newline>            <div class="thesis-info">''
   @ ''\<newline>                <h3>''
   @ js_to_string (title t)
   @ ''</h3>''
   @ ''\<newline>                <p class="thesis-topic">''
   @ ''\<newline>                    <i class="fas fa-graduation-cap"></i>''
   @ ''\<newline>                    ''
   @ js_to_string (topic t)
   @ ''\<newline>                </p>''
   @ ''\<newline>                <p class="thesis-description">''
   @ js_to_string (description t)
   @ ''</p>''
   @ ''\<newline>                <div class="thesis-features">''
   @ ''\<newline>                    <h4>''
   @ [CHR 0xD0, CHR 0x9E, CHR 0xD1, CHR 0x81, CHR 0xD0, CHR 0xBD, CHR 0xD0, CHR 0xBE, CHR 0xD0, CHR 0xB2, CHR 0xD0, CHR 0xBD, CHR 0xD1, CHR 0x8B, CHR 0xD0, CHR 0xB5]
   @ '' ''
   @ [CHR 0xD1, CHR 0x80, CHR 0xD0, CHR 0xB0, CHR 0xD0, CHR 0xB7, CHR 0xD0, CHR 0xB4, CHR 0xD0, CHR 0xB5, CHR 0xD0, CHR 0xBB, CHR 0xD1, CHR 0x8B]
   @ '':</h4>''
   @ ''\<newline>                    <ul>''
   @ ''\<newline>                        ''\<close>

definition thesis_tail :: "thesis \<Rightarrow> string" where
  \<open>thesis_tail t =
     ''\<newline>                    </ul>''
   @ ''\<newline>                </div>''
   @ ''\<newline>                <a href="''
   @ js_to_string (link t)
   @ ''" class="thesis-link" target="_blank">''
   @ ''\<newline>                    <i class="fas fa-file-alt"></i>''
   @ ''\<newline>                    ''
   @ [CHR 0xD0, CHR 0x9E, CHR 0xD1, CHR 0x82, CHR 0xD0, CHR 0xBA, CHR 0xD1, CHR 0x80, CHR 0xD1, CHR 0x8B, CHR 0xD1, CHR 0x82, CHR 0xD1, CHR 0x8C]
   @ '' ''
   @ [CHR 0xD1, CHR 0x80, CHR 0xD0, CHR 0xB0, CHR 0xD0, CHR 0xB1, CHR 0xD0, CHR 0xBE, CHR 0xD1, CHR 0x82, CHR 0xD1, CHR 0x83]
   @ ''\<newline>                </a>''
   @ ''\<newline>            </div>''
   @ ''\<newline>        </div>''\<close>

definition thesis_element :: "thesis \<Rightarrow> string list \<Rightarrow> string" where
  "thesis_element t features = thesis_head t @ concat (map feature_markup features) @ thesis_tail t"

definition thesis_markup :: "thesis \<Rightarrow> string list \<Rightarrow> string" where
  \<open>thesis_markup t features =
     ''\<newline>        '' @ thesis_element t features @ ''\<newline>    ''\<close>

text \<open>
  \<^verbatim>\<open>renderThesis\<close>. Calling \<^verbatim>\<open>.map\<close> on a missing \<^verbatim>\<open>keyFeatures\<close> throws while the
  template is evaluated, before the assignment to the container.
\<close>

definition renderThesis :: "page \<Rightarrow> js_error option \<times> page" where
  "renderThesis p =
     (case getElementById ''thesisContent'' p of
        None \<Rightarrow> (None, p)
      | Some container \<Rightarrow>
          if truthy (title (thesisData p))
          then (case keyFeatures (thesisData p) of
                  None \<Rightarrow> (Some TypeError, p)
                | Some features \<Rightarrow>
                    (None, modify container
                             (\<lambda>e. e\<lparr>innerHTML := thesis_markup (thesisData p) features\<rparr>) p))
          else (None, p))"

section \<open>Loading the data\<close>

text \<open>
  What \<^verbatim>\<open>await fetch(url)\<close> gives for a source: the promise rejects (the transport
  fails), or it resolves to a response with its \<^verbatim>\<open>ok\<close> flag and with what
  \<^verbatim>\<open>await response.json()\<close> would give, \<open>None\<close> when the body is not valid JSON.
\<close>

datatype 'a response = Rejected | Response bool "'a option"

record network =
  modulesResponse :: "education_module list response"
  thesisResponse :: "thesis response"
  courseworksResponse :: "coursework list response"
  practicalResponse :: "practical_work list response"

definition fetch :: "string \<Rightarrow> page \<Rightarrow> page" where
  "fetch url p = p\<lparr>fetched := fetched p @ [url]\<rparr>"

text \<open>Statements in sequence inside the \<^verbatim>\<open>try\<close> block: an exception skips the rest.\<close>

definition seq :: "(page \<Rightarrow> js_error option \<times> page) \<Rightarrow> (page \<Rightarrow> js_error option \<times> page)
    \<Rightarrow> page \<Rightarrow> js_error option \<times> page" where
  "seq f g p = (case f p of (None, p') \<Rightarrow> g p' | (Some e, p') \<Rightarrow> (Some e, p'))"

definition loadModules :: "network \<Rightarrow> page \<Rightarrow> js_error option \<times> page" where
  "loadModules net p =
     (let p1 = fetch ''public/data/education_modules.json'' p
      in case modulesResponse net of
           Rejected \<Rightarrow> (Some NetworkError, p1)
         | Response ok body \<Rightarrow>
             if ok then (case body of
                           None \<Rightarrow> (Some SyntaxError, p1)
                         | Some doc \<Rightarrow> (None, renderEducationModules (p1\<lparr>educationModules := doc\<rparr>)))
             else (None, p1))"

definition loadThesis :: "network \<Rightarrow> page \<Rightarrow> js_error option \<times> page" where
  "loadThesis net p =
     (let p1 = fetch ''public/data/thesis.json'' p
      in case thesisResponse net of
           Rejected \<Rightarrow> (Some NetworkError, p1)
         | Response ok body \<Rightarrow>
             if ok then (case body of
                           None \<Rightarrow> (Some SyntaxError, p1)
                         | Some doc \<Rightarrow> renderThesis (p1\<lparr>thesisData := doc\<rparr>))
             else (None, p1))"

definition loadCourseworks :: "network \<Rightarrow> page \<Rightarrow> js_error option \<times> page" where
  "loadCourseworks net p =
     (let p1 = fetch ''public/data/courseworks.json'' p
      in case courseworksResponse net of
           Rejected \<Rightarrow> (Some NetworkError, p1)
         | Response ok body \<Rightarrow>
             if ok then (case body of
                           None \<Rightarrow> (Some SyntaxError, p1)
                         | Some doc \<Rightarrow> (None, renderCourseworks (p1\<lparr>courseworks := doc\<rparr>)))
             else (None, p1))"

definition loadPractical :: "network \<Rightarrow> page \<Rightarrow> js_error option \<times> page" where
  "loadPractical net p =
     (let p1 = fetch ''public/data/practical_works.json'' p
      in case practicalResponse net of
           Rejected \<Rightarrow> (Some NetworkError, p1)
         | Response ok body \<Rightarrow>
             if ok then (case body of
                           None \<Rightarrow> (Some SyntaxError, p1)
                         | Some doc \<Rightarrow> (None, renderPracticalWorks (p1\<lparr>practicalWorks := doc\<rparr>)))
             else (None, p1))"

text \<open>\<^verbatim>\<open>loadAllData\<close>: the four loads in one \<^verbatim>\<open>try\<close>, the \<^verbatim>\<open>catch\<close> logs the error.\<close>

definition loadAllData :: "network \<Rightarrow> page \<Rightarrow> page" where
  "loadAllData net p =
     (case seq (loadModules net) (seq (loadThesis net) (seq (loadCourseworks net) (loadPractical net))) p of
        (None, p') \<Rightarrow> p'
      | (Some error, p') \<Rightarrow> p'\<lparr>console := console p' @ [error]\<rparr>)"

text \<open>What a test of the page observes of a container: its markup, if it is on the page.\<close>

definition content_of :: "string \<Rightarrow> page \<Rightarrow> string option" where
  "content_of s p = map_option (\<lambda>i. innerHTML (elements p ! i)) (getElementById s p)"

text \<open>A response with a non-success status, and a response that delivers a document.\<close>

definition refused :: "'a response \<Rightarrow> bool" where
  "refused r = (case r of Rejected \<Rightarrow> False | Response ok body \<Rightarrow> (if ok then False else True))"

definition delivers :: "'a response \<Rightarrow> 'a \<Rightarrow> bool" where
  "delivers r doc = (r = Response True (Some doc))"

text \<open>
  What a test observes of one source after \<^verbatim>\<open>loadAllData\<close> took the page from \<open>p\<close> to
  \<open>p'\<close>. The source was loaded: its slot holds the document and its container holds what
  its render function makes of the document. The source was skipped: its slot and its
  container are as they were.
\<close>

text \<open>A load runs on a page without throwing.\<close>

definition completes :: "(page \<Rightarrow> js_error option \<times> page) \<Rightarrow> page \<Rightarrow> bool" where
  "completes f p = (fst (f p) = None)"

text \<open>
  The thesis documents that \<^verbatim>\<open>renderThesis\<close> renders without an exception: those that
  have their \<^verbatim>\<open>keyFeatures\<close> list, and those with a falsy title, of which nothing is
  rendered.
\<close>

definition renderable :: "thesis \<Rightarrow> bool" where
  "renderable t = (case keyFeatures t of Some features \<Rightarrow> True | None \<Rightarrow> \<not> truthy (title t))"

definition modules_loaded :: "education_module list \<Rightarrow> page \<Rightarrow> page \<Rightarrow> bool" where
  "modules_loaded doc p p' = (educationModules p' = doc
     \<and> content_of ''educationModules'' p'
       = content_of ''educationModules'' (renderEducationModules (p\<lparr>educationModules := doc\<rparr>)))"

definition modules_skipped :: "page \<Rightarrow> page \<Rightarrow> bool" where
  "modules_skipped p p' = (educationModules p' = educationModules p
     \<and> content_of ''educationModules'' p' = content_of ''educationModules'' p)"

definition thesis_loaded :: "thesis \<Rightarrow> page \<Rightarrow> page \<Rightarrow> bool" where
  "thesis_loaded doc p p' = (thesisData p' = doc
     \<and> content_of ''thesisContent'' p'
       = content_of ''thesisContent'' (snd (renderThesis (p\<lparr>thesisData := doc\<rparr>))))"

definition thesis_skipped :: "page \<Rightarrow> page \<Rightarrow> bool" where
  "thesis_skipped p p' = (thesisData p' = thesisData p
     \<and> content_of ''thesisContent'' p' = content_of ''thesisContent'' p)"

definition courseworks_loaded :: "coursework list \<Rightarrow> page \<Rightarrow> page \<Rightarrow> bool" where
  "courseworks_loaded doc p p' = (courseworks p' = doc
     \<and> content_of ''courseworksList'' p'
       = content_of ''courseworksList'' (renderCourseworks (p\<lparr>courseworks := doc\<rparr>)))"

definition courseworks_skipped :: "page \<Rightarrow> page \<Rightarrow> bool" where
  "courseworks_skipped p p' = (courseworks p' = courseworks p
     \<and> content_of ''courseworksList'' p' = content_of ''courseworksList'' p)"

definition practicals_loaded :: "practical_work list \<Rightarrow> page \<Rightarrow> page \<Rightarrow> bool" where
  "practicals_loaded doc p p' = (practicalWorks p' = doc
     \<and> content_of ''practicalsList'' p'
       = content_of ''practicalsList'' (renderPracticalWorks (p\<lparr>practicalWorks := doc\<rparr>)))"

definition practicals_skipped :: "page \<Rightarrow> page \<Rightarrow> bool" where
  "practicals_skipped p p' = (practicalWorks p' = practicalWorks p
     \<and> content_of ''practicalsList'' p' = content_of ''practicalsList'' p)"

section \<open>The elements of a markup string\<close>

text \<open>
  The elements a container gets from the markup assigned to its \<^verbatim>\<open>innerHTML\<close> are read
  off the string as the HTML parser reads them, for the part of HTML the templates of the
  script are written in; \<open>None\<close> stands for markup outside that part, about which
  nothing is said. The container is taken to be an element whose content is parsed as
  body content, such as a \<^verbatim>\<open>div\<close>.

  The tags are found by the states of the HTML tokenizer. In text, \<^verbatim>\<open><\<close> and a letter
  begin a start tag, \<^verbatim>\<open></\<close> and a letter an end tag; a \<^verbatim>\<open><\<close> followed by anything else
  but \<^verbatim>\<open>!\<close> and \<^verbatim>\<open>?\<close> is text (comments, declarations and end tags without a name are
  outside the part covered). Inside a tag the tokenizer goes through the tag name,
  attribute names and attribute values: a value that begins with a quotation mark runs
  to the next quotation mark of the same kind, whatever characters lie between, an
  unquoted value runs to the next white space or \<^verbatim>\<open>>\<close>, and the tag ends at the first
  \<^verbatim>\<open>>\<close> outside a quoted value. The tokenizer's state after a quoted value behaves as
  its state before an attribute name, and is not kept apart from it.
\<close>

datatype tag_mode = TagName | BeforeAttrName | AttrName | AfterAttrName | BeforeAttrValue
  | ValueDQ | ValueSQ | ValueUnquoted | SelfClosing

datatype scan_mode = InText | AfterLt | AfterLtSlash | InTag bool string tag_mode

definition is_alpha :: "char \<Rightarrow> bool" where
  "is_alpha c = (c \<in> set ''abcdefghijklmnopqrstuvwxyzABCDEFGHIJKLMNOPQRSTUVWXYZ'')"

text \<open>White space: tab, line feed, form feed, carriage return, space.\<close>

definition is_space :: "char \<Rightarrow> bool" where
  "is_space c = (c \<in> set [CHR 0x09, CHR 0x0A, CHR 0x0C, CHR 0x0D, CHR 0x20])"

primrec snoc :: "string \<Rightarrow> char \<Rightarrow> string" where
  "snoc [] c = [c]"
| "snoc (x # xs) c = x # snoc xs c"

text \<open>
  The elements are built from the tags by the rules of the parser for body content,
  for the ten kinds of element the templates use. A start tag opens an element inside
  the innermost open one, unless the parser would first close an open element on its own
  account: a block element, a heading or a list item while a paragraph is open, a
  heading directly inside a heading, a list item while another list item is open with no
  list or heading in between, a link while a link is open. An end tag closes the
  innermost open element when it carries its name. Every other tag (another name, a name
  in capitals, an end tag that does not match) is outside the part covered. The stack
  holds the names of the open elements, innermost first.
\<close>

definition ordinary :: "string list" where
  "ordinary = [''div'', ''span'', ''p'', ''a'', ''i'', ''strong'', ''h3'', ''h4'', ''ul'', ''li'']"

definition heading :: "string \<Rightarrow> bool" where
  "heading n = (n = ''h3'' \<or> n = ''h4'')"

definition closes_p :: "string \<Rightarrow> bool" where
  "closes_p n = (n \<in> set [''div'', ''p'', ''h3'', ''h4'', ''ul'', ''li''])"

fun li_open :: "string list \<Rightarrow> bool" where
  "li_open [] = False"
| "li_open (x # xs) =
     (if x = ''li'' then True
      else if x = ''ul'' \<or> heading x then False
      else li_open xs)"

definition nests :: "string \<Rightarrow> string list \<Rightarrow> bool" where
  "nests n stk = (n \<in> set ordinary
     \<and> \<not> (closes_p n \<and> ''p'' \<in> set stk)
     \<and> \<not> (heading n \<and> (case stk of [] \<Rightarrow> False | x # xs \<Rightarrow> heading x))
     \<and> \<not> (n = ''li'' \<and> li_open stk)
     \<and> \<not> (n = ''a'' \<and> ''a'' \<in> set stk))"

type_synonym parse_state = "string list \<times> scan_mode"

definition emit :: "bool \<Rightarrow> string \<Rightarrow> string list \<Rightarrow> parse_state option" where
  "emit closing n stk =
     (if closing then
        (case stk of
           [] \<Rightarrow> None
         | x # xs \<Rightarrow> if x = n then Some (xs, InText) else None)
      else if nests n stk then Some (n # stk, InText)
      else None)"

fun tag_step :: "char \<Rightarrow> bool \<Rightarrow> string \<Rightarrow> tag_mode \<Rightarrow> string list \<Rightarrow> parse_state option" where
  "tag_step c cl n TagName stk =
     (if is_space c then Some (stk, InTag cl n BeforeAttrName)
      else if c = CHR ''/'' then Some (stk, InTag cl n SelfClosing)
      else if c = CHR ''>'' then emit cl n stk
      else Some (stk, InTag cl (snoc n c) TagName))"
| "tag_step c cl n BeforeAttrName stk =
     (if is_space c then Some (stk, InTag cl n BeforeAttrName)
      else if c = CHR ''/'' then Some (stk, InTag cl n SelfClosing)
      else if c = CHR ''>'' then emit cl n stk
      else Some (stk, InTag cl n AttrName))"
| "tag_step c cl n AttrName stk =
     (if is_space c then Some (stk, InTag cl n AfterAttrName)
      else if c = CHR ''/'' then Some (stk, InTag cl n SelfClosing)
      else if c = CHR ''>'' then emit cl n stk
      else if c = CHR ''='' then Some (stk, InTag cl n BeforeAttrValue)
      else Some (stk, InTag cl n AttrName))"
| "tag_step c cl n AfterAttrName stk =
     (if is_space c then Some (stk, InTag cl n AfterAttrName)
      else if c = CHR ''/'' then Some (stk, InTag cl n SelfClosing)
      else if c = CHR ''>'' then emit cl n stk
      else if c = CHR ''='' then Some (stk, InTag cl n BeforeAttrValue)
      else Some (stk, InTag cl n AttrName))"
| "tag_step c cl n BeforeAttrValue stk =
     (if is_space c then Some (stk, InTag cl n BeforeAttrValue)
      else if c = CHR 0x22 then Some (stk, InTag cl n ValueDQ)
      else if c = CHR 0x27 then Some (stk, InTag cl n ValueSQ)
      else if c = CHR ''>'' then emit cl n stk
      else Some (stk, InTag cl n ValueUnquoted))"
| "tag_step c cl n ValueDQ stk =
     (if c = CHR 0x22 then Some (stk, InTag cl n BeforeAttrName)
      else Some (stk, InTag cl n ValueDQ))"
| "tag_step c cl n ValueSQ stk =
     (if c = CHR 0x27 then Some (stk, InTag cl n BeforeAttrName)
      else Some (stk, InTag cl n ValueSQ))"
| "tag_step c cl n ValueUnquoted stk =
     (if is_space c then Some (stk, InTag cl n BeforeAttrName)
      else if c = CHR ''>'' then emit cl n stk
      else Some (stk, InTag cl n ValueUnquoted))"
| "tag_step c cl n SelfClosing stk =
     (if c = CHR ''>'' then emit cl n stk
      else if is_space c then Some (stk, InTag cl n BeforeAttrName)
      else if c = CHR ''/'' then Some (stk, InTag cl n SelfClosing)
      else Some (stk, InTag cl n AttrName))"

fun parse_step :: "char \<Rightarrow> parse_state \<Rightarrow> parse_state option" where
  "parse_step c (stk, InText) = Some (stk, if c = CHR ''<'' then AfterLt else InText)"
| "parse_step c (stk, AfterLt) =
     (if c = CHR ''/'' then Some (stk, AfterLtSlash)
      else if is_alpha c then Some (stk, InTag False [c] TagName)
      else if c = CHR ''!'' \<or> c = CHR ''?'' then None
      else Some (stk, if c = CHR ''<'' then AfterLt else InText))"
| "parse_step c (stk, AfterLtSlash) =
     (if is_alpha c then Some (stk, InTag True [c] TagName) else None)"
| "parse_step c (stk, InTag cl n tm) = tag_step c cl n tm stk"

text \<open>
  The scanner runs the parser over the string and collects the text of every element
  of the container itself, from the \<^verbatim>\<open><\<close> of its start tag to the \<^verbatim>\<open>>\<close> of its end tag,
  in the order in which they close. Text between these elements belongs to none of them.
  At the end of the string an element that is still open is closed by the parser, so it
  is an element of the container too, with the text read so far.
\<close>

type_synonym scan_state = "string list \<times> scan_mode \<times> string \<times> string list"

fun scan_step :: "char \<Rightarrow> scan_state option \<Rightarrow> scan_state option" where
  "scan_step c None = None"
| "scan_step c (Some (stk, m, cur, out)) =
     (case parse_step c (stk, m) of
        None \<Rightarrow> None
      | Some (stk', m') \<Rightarrow>
          Some (if stk' = [] \<and> m' = InText
                then ([], InText, [], if stk = [] then out else out @ [cur @ [c]])
                else if stk' = [] \<and> m' = AfterLt then ([], AfterLt, [c], out)
                else (stk', m', cur @ [c], out)))"

definition scan :: "string \<Rightarrow> scan_state option \<Rightarrow> scan_state option" where
  "scan s st = fold scan_step s st"

definition top_level_elements :: "string \<Rightarrow> string list option" where
  "top_level_elements s =
     (case scan s (Some ([], InText, [], [])) of
        None \<Rightarrow> None
      | Some (stk, m, cur, out) \<Rightarrow> Some (if stk = [] then out else out @ [cur]))"

text \<open>The same run, counting the elements instead of collecting their text.\<close>

fun count_step :: "char \<Rightarrow> (string list \<times> scan_mode \<times> nat) option
    \<Rightarrow> (string list \<times> scan_mode \<times> nat) option" where
  "count_step c None = None"
| "count_step c (Some (stk, m, k)) =
     (case parse_step c (stk, m) of
        None \<Rightarrow> None
      | Some (stk', m') \<Rightarrow>
          Some (stk', m', if stk' = [] \<and> m' = InText \<and> stk \<noteq> [] then Suc k else k))"

definition element_count :: "string \<Rightarrow> nat option" where
  "element_count s =
     (case fold count_step s (Some ([], InText, 0)) of
        None \<Rightarrow> None
      | Some (stk, m, k) \<Rightarrow> Some (if stk = [] then k else Suc k))"

subsection \<open>Well-formed documents\<close>

text \<open>
  The templates insert the fields of the documents unescaped. A field inserted as the
  text of an element holds text, not markup, when there is no \<^verbatim>\<open><\<close> in it; a field
  inserted between the quotation marks of an attribute value stays inside the value when
  there is no quotation mark in it. A document is well formed when its text fields are
  plain and its links are free of quotation marks.
\<close>

definition plain :: "string \<Rightarrow> bool" where
  "plain s = (CHR ''<'' \<notin> set s)"

definition quote_free :: "string \<Rightarrow> bool" where
  "quote_free s = (CHR 0x22 \<notin> set s)"

definition lab_ok :: "lab \<Rightarrow> bool" where
  "lab_ok l = (plain (lab_title l) \<and> quote_free (lab_link l))"

definition semester_ok :: "semester \<Rightarrow> bool" where
  "semester_ok s = (plain (semester_title s) \<and> list_all lab_ok (labs s))"

definition module_ok :: "education_module \<Rightarrow> bool" where
  "module_ok m = (plain (module_title m) \<and> list_all semester_ok (semesters m))"

definition coursework_ok :: "coursework \<Rightarrow> bool" where
  "coursework_ok w = (plain (cw_title w) \<and> plain (cw_semester w) \<and> plain (cw_description w)
     \<and> list_all plain (technologies w) \<and> quote_free (cw_link w))"

definition practical_ok :: "practical_work \<Rightarrow> bool" where
  "practical_ok w = (plain (pw_title w) \<and> plain (pw_semester w) \<and> plain (pw_description w)
     \<and> list_all plain (items w) \<and> quote_free (pw_link w))"

definition thesis_ok :: "thesis \<Rightarrow> bool" where
  "thesis_ok t = (plain (js_to_string (title t)) \<and> plain (js_to_string (topic t))
     \<and> plain (js_to_string (description t)) \<and> quote_free (js_to_string (link t)))"


section \<open>Start-up\<close>

text \<open>
  The wiring the \<^verbatim>\<open>DOMContentLoaded\<close> listener does once the data is loaded:
  \<^verbatim>\<open>initNavigation\<close>, \<^verbatim>\<open>initCounters\<close>, \<^verbatim>\<open>initBackToTop\<close>. The visual effects
  (the scroll-reveal and particle libraries, the preloader, \<^verbatim>\<open>initScrollAnimations\<close>) and
  the smooth scrolling of anchors are left out: they register no scroll listener and
  write none of the marks the functions above read.
\<close>

definition initPage :: "page \<Rightarrow> page" where
  "initPage p = initBackToTop (initCounters (initNavigation p))"


section \<open>A sample page\<close>

text \<open>
  An element without classes, attributes, content or inline style (unary plus gives 0
  for a missing attribute and for empty text), and a small page with every element the
  script looks for: the navigation bar with its
  toggle, menu and two links, two sections, the four containers, a counter, the
  back-to-top button, and the content and icon elements of one rendered module.
\<close>

definition blank :: element where
  "blank = \<lparr>tagName = ''div'', elemId = None, classList = [], href = None, innerHTML = [],
     styleDisplay = [], styleTransform = [], offsetTop = 0, offsetHeight = 0,
     dataCount = Some 0, innerText = Some 0\<rparr>"

definition sample_elements :: "element list" where
  "sample_elements =
    [blank\<lparr>tagName := ''nav'', elemId := Some ''navbar''\<rparr>,
     blank\<lparr>elemId := Some ''navToggle''\<rparr>,
     blank\<lparr>tagName := ''ul'', elemId := Some ''navMenu''\<rparr>,
     blank\<lparr>tagName := ''a'', classList := [''nav-link''], href := Some ''#home''\<rparr>,
     blank\<lparr>tagName := ''a'', classList := [''nav-link''], href := Some ''#about''\<rparr>,
     blank\<lparr>tagName := ''section'', elemId := Some ''home'', offsetTop := 0, offsetHeight := 500\<rparr>,
     blank\<lparr>tagName := ''section'', elemId := Some ''about'', offsetTop := 500, offsetHeight := 500\<rparr>,
     blank\<lparr>elemId := Some ''educationModules''\<rparr>,
     blank\<lparr>elemId := Some ''thesisContent''\<rparr>,
     blank\<lparr>elemId := Some ''courseworksList''\<rparr>,
     blank\<lparr>elemId := Some ''practicalsList''\<rparr>,
     blank\<lparr>tagName := ''span'', classList := [''stat-number''], dataCount := Some 80, innerText := Some 0\<rparr>,
     blank\<lparr>tagName := ''button'', elemId := Some ''backToTop''\<rparr>,
     blank\<lparr>elemId := Some ''module-content-0'', styleDisplay := ''none''\<rparr>,
     blank\<lparr>tagName := ''i'', elemId := Some ''module-icon-0''\<rparr>]"

text \<open>The state of the script when it starts: the slots hold their initial values.\<close>

definition empty_thesis :: thesis where
  "empty_thesis = \<lparr>title = JUndefined, topic = JUndefined, description = JUndefined,
     keyFeatures = None, link = JUndefined\<rparr>"

definition fresh_page :: "element list \<Rightarrow> page" where
  "fresh_page es = \<lparr>elements = es, scrollY = 0, educationModules = [], thesisData = empty_thesis,
     courseworks = [], practicalWorks = [], fetched = [], console = [], uncaught = [],
     listeners = [], observed = [], timers = [], scrollToRequests = []\<rparr>"

text \<open>A thesis document with a title and nothing else.\<close>

definition bare_thesis :: thesis where
  "bare_thesis = empty_thesis\<lparr>title := JStr ''T''\<rparr>"

text \<open>Sample documents of the four sources.\<close>

definition sample_modules :: "education_module list" where
  "sample_modules =
     [\<lparr>module_title = ''Programming'',
       semesters = [\<lparr>semester_title = ''Semester 1'',
                     labs = [\<lparr>lab_title = ''Lab 1'', lab_link = ''labs/1.pdf''\<rparr>]\<rparr>,
                    \<lparr>semester_title = ''Semester 2'',
                     labs = [\<lparr>lab_title = ''Lab 2'', lab_link = ''labs/2.pdf''\<rparr>]\<rparr>]\<rparr>]"

definition sample_thesis :: thesis where
  "sample_thesis = \<lparr>title = JStr ''Thesis'', topic = JStr ''Topic'', description = JStr ''About'',
     keyFeatures = Some [''Analysis'', ''Design''], link = JStr ''thesis.pdf''\<rparr>"

definition sample_courseworks :: "coursework list" where
  "sample_courseworks =
     [\<lparr>cw_title = ''Databases'', cw_semester = ''3'', cw_description = ''A store'',
       technologies = [''SQL'', ''PHP''], cw_link = ''cw/1.pdf''\<rparr>,
      \<lparr>cw_title = ''Networks'', cw_semester = ''4'', cw_description = ''A chat'',
       technologies = [], cw_link = ''cw/2.pdf''\<rparr>]"

definition sample_practicals :: "practical_work list" where
  "sample_practicals =
     [\<lparr>pw_title = ''Algorithms'', pw_semester = ''2'', pw_description = ''Sorting'',
       items = [''Quicksort''], pw_link = ''pw/1.pdf''\<rparr>]"

text \<open>A network on which every source delivers its sample document.\<close>

definition sample_network :: network where
  "sample_network = \<lparr>modulesResponse = Response True (Some sample_modules),
     thesisResponse = Response True (Some sample_thesis),
     courseworksResponse = Response True (Some sample_courseworks),
     practicalResponse = Response True (Some sample_practicals)\<rparr>"

definition sample_page :: page where
  "sample_page = fresh_page sample_elements"


text \<open>
  Courseworks of the right shape whose fields hold characters of markup: a title that
  closes the card it is printed in and opens another element, and a link that ends the
  attribute value it is printed in and begins a value in single quotes.
\<close>

definition markup_title :: string where
  "markup_title = ''</h3></div></div><div><div><h3>''"

definition markup_coursework :: coursework where
  "markup_coursework = \<lparr>cw_title = markup_title, cw_semester = ''3'', cw_description = ''A store'',
     technologies = [''SQL'', ''PHP''], cw_link = ''cw/1.pdf''\<rparr>"

definition quoting_link :: string where
  "quoting_link = ''x'' @ [CHR 0x22] @ '' y='' @ [CHR 0x27]"

definition quoting_courseworks :: "coursework list" where
  "quoting_courseworks =
     [\<lparr>cw_title = ''Databases'', cw_semester = ''3'', cw_description = ''A store'',
       technologies = [''SQL'', ''PHP''], cw_link = quoting_link\<rparr>,
      \<lparr>cw_title = ''Networks'', cw_semester = ''4'', cw_description = ''A chat'',
       technologies = [], cw_link = ''cw/2.pdf''\<rparr>]"


section \<open>Notions used in the statements and proofs\<close>

text \<open>No listener changes the scroll offset, the number of elements or the listeners.\<close>

definition frame :: "page \<Rightarrow> page \<Rightarrow> bool" where
  "frame p q = (scrollY q = scrollY p \<and> length (elements q) = length (elements p) \<and> listeners q = listeners p)"

text \<open>Setting the display of one element and the transform of another.\<close>

definition restyle :: "nat \<Rightarrow> string \<Rightarrow> nat \<Rightarrow> string \<Rightarrow> page \<Rightarrow> page" where
  "restyle c d i t p =
     p\<lparr>elements := (elements p)[c := (elements p ! c)\<lparr>styleDisplay := d\<rparr>,
                                     i := (elements p ! i)\<lparr>styleTransform := t\<rparr>]\<rparr>"

text \<open>
  The band of scroll offsets for which \<^verbatim>\<open>updateActiveNavLink\<close> takes a section to be the
  current one, as the callback tests it: above \<^verbatim>\<open>offsetTop - 100\<close>, and at most
  \<^verbatim>\<open>offsetTop - 100 + offsetHeight\<close>.
\<close>

definition in_band :: "real \<Rightarrow> element \<Rightarrow> bool" where
  "in_band y e = (real_of_int (offsetTop e - 100) < y
     \<and> y \<le> real_of_int (offsetTop e - 100 + offsetHeight e))"

text \<open>The band \<open>[top, top + height)\<close> of a section, as the specification describes it.\<close>

definition spec_band :: "real \<Rightarrow> element \<Rightarrow> bool" where
  "spec_band y e = (real_of_int (offsetTop e) \<le> y \<and> y < real_of_int (offsetTop e + offsetHeight e))"

text \<open>What of an element the marking of navigation links reads and never changes.\<close>

definition skeleton :: "element \<Rightarrow> string \<times> string option \<times> string option \<times> int \<times> int \<times> bool" where
  "skeleton e = (tagName e, elemId e, href e, offsetTop e, offsetHeight e, hasClass ''nav-link'' e)"

text \<open>
  The page while the counter \<open>i\<close> is being animated: the counter shows \<open>v\<close>, the timers
  \<open>ts\<close> are pending, and the counter is no longer observed.
\<close>

definition counting :: "nat \<Rightarrow> real \<Rightarrow> (nat \<times> real option) list \<Rightarrow> page \<Rightarrow> page" where
  "counting i v ts p =
     p\<lparr>elements := (elements p)[i := (elements p ! i)\<lparr>innerText := Some v\<rparr>],
       timers := ts, observed := removeAll i (observed p)\<rparr>"

text \<open>The number a counter displays.\<close>

definition displayed :: "nat \<Rightarrow> page \<Rightarrow> real option" where
  "displayed i p = innerText (elements p ! i)"

text \<open>
  The timers pending for one counter, and the whole number a counter shows (0 when it
  shows none).
\<close>

definition own_timers :: "nat \<Rightarrow> page \<Rightarrow> (nat \<times> real option) list" where
  "own_timers i p = filter (\<lambda>x. fst x = i) (timers p)"

definition shown :: "nat \<Rightarrow> page \<Rightarrow> nat" where
  "shown i p = (case displayed i p of None \<Rightarrow> 0 | Some v \<Rightarrow> nat \<lfloor>v\<rfloor>)"

text \<open>
  What can happen to the counters once they are observed: the timer at the head of the
  queue fires, or the observer's callback is handed a list of entries; and a history of
  such happenings, in the order they take place.
\<close>

datatype happening = TimerFires | Intersections "(nat \<times> bool) list"

fun happen :: "happening \<Rightarrow> page \<Rightarrow> page" where
  "happen TimerFires p = fireTimer p"
| "happen (Intersections entries) p = deliverIntersections entries p"

definition history :: "happening list \<Rightarrow> page \<Rightarrow> page" where
  "history hs p = fold happen hs p"

text \<open>
  The counter \<open>i\<close> with target 80 after \<open>j\<close> calls of \<^verbatim>\<open>animateCounter\<close> in one
  callback: it shows \<open>j\<close>, and \<open>j\<close> of its timers are pending, up to the target.
\<close>

definition started :: "nat \<Rightarrow> nat \<Rightarrow> page \<Rightarrow> bool" where
  "started i j p = (i < length (elements p) \<and> dataCount (elements p ! i) = Some 80
     \<and> displayed i p = Some (real (min j 80))
     \<and> own_timers i p = replicate (min j 80) (i, Some 80))"

text \<open>
  The counter \<open>i\<close> with target 80 while its animation runs and after it: it is not
  observed, it shows a whole number from 1 to 80, its pending timers carry the target,
  and one of them is pending as long as it shows less than 80.
\<close>

definition animating :: "nat \<Rightarrow> page \<Rightarrow> bool" where
  "animating i p = (i < length (elements p) \<and> dataCount (elements p ! i) = Some 80
     \<and> i \<notin> set (observed p)
     \<and> displayed i p = Some (real (shown i p)) \<and> 1 \<le> shown i p \<and> shown i p \<le> 80
     \<and> list_all (\<lambda>x. snd x = Some 80) (own_timers i p)
     \<and> (shown i p = 80 \<or> own_timers i p \<noteq> []))"

text \<open>
  Following the tags without collecting text: the open elements and the mode of the
  parser, run over a string from inside an element, or from just after the \<^verbatim>\<open><\<close> that
  may begin the start tag of an element of the container. The run fails (\<open>None\<close>) when
  the markup is outside the part covered, when that \<^verbatim>\<open><\<close> begins no tag, and when the
  string goes on after the element it started in has been closed.
\<close>

fun inner_step :: "char \<Rightarrow> parse_state option \<Rightarrow> parse_state option" where
  "inner_step c None = None"
| "inner_step c (Some (stk, m)) =
     (if stk = [] \<and> m = InText then None
      else (case parse_step c (stk, m) of
              None \<Rightarrow> None
            | Some (stk', m') \<Rightarrow>
                if stk = [] \<and> m = AfterLt \<and> (m' = InText \<or> m' = AfterLt) then None
                else Some (stk', m')))"

definition inner :: "string \<Rightarrow> parse_state \<Rightarrow> parse_state option" where
  "inner s st = fold inner_step s (Some st)"

text \<open>The run over a whole element, from its opening \<^verbatim>\<open><\<close> on.\<close>

definition element_run :: "string \<Rightarrow> parse_state option" where
  "element_run s =
     (case s of
        [] \<Rightarrow> None
      | c # s' \<Rightarrow> if c = CHR ''<'' then inner s' ([], AfterLt) else None)"

section \<open>Basic facts\<close>

lemma find_index_Some: "find_index P xs = Some i \<Longrightarrow> i < length xs \<and> P (xs ! i)"
proof (induction xs arbitrary: i)
  case Nil
  then show ?case by simp
next
  case (Cons x xs)
  then show ?case by (auto split: if_splits)
qed

lemma getElementById_bound: "getElementById s p = Some i \<Longrightarrow> i < length (elements p)"
  by (auto simp: getElementById_def dest: find_index_Some)

lemma modify_simps [simp]:
  "elements (modify i f p) = (elements p)[i := f (elements p ! i)]"
  "scrollY (modify i f p) = scrollY p"
  "listeners (modify i f p) = listeners p"
  "observed (modify i f p) = observed p"
  "timers (modify i f p) = timers p"
  "uncaught (modify i f p) = uncaught p"
  "console (modify i f p) = console p"
  "fetched (modify i f p) = fetched p"
  "educationModules (modify i f p) = educationModules p"
  "thesisData (modify i f p) = thesisData p"
  "courseworks (modify i f p) = courseworks p"
  "practicalWorks (modify i f p) = practicalWorks p"
  "scrollToRequests (modify i f p) = scrollToRequests p"
  by (simp_all add: modify_def)

lemma frame_refl [simp]: "frame p p" by (simp add: frame_def)
lemma frame_trans: "frame p q \<Longrightarrow> frame q r \<Longrightarrow> frame p r" by (simp add: frame_def)
lemma frame_modify [simp]: "frame p (modify i f p)" by (simp add: frame_def)

lemma frame_fold:
  assumes "\<And>x q. frame q (f x q)"
  shows "frame p (fold f xs p)"
proof (induction xs arbitrary: p)
  case Nil
  show ?case by simp
next
  case (Cons x xs)
  have "frame p (f x p)" by (rule assms)
  moreover have "frame (f x p) (fold f xs (f x p))" by (rule Cons.IH)
  ultimately show ?case by (auto intro: frame_trans)
qed

lemma frame_clearActive [simp]: "frame p (clearActive p)"
  unfolding clearActive_def by (rule frame_fold) simp

lemma frame_sectionStep [simp]: "frame p (sectionStep y i p)"
  by (auto simp: sectionStep_def Let_def split: option.splits intro: frame_trans [OF frame_clearActive])

lemma frame_updateActiveNavLink [simp]: "frame p (updateActiveNavLink p)"
  unfolding updateActiveNavLink_def by (rule frame_fold) simp

lemma frame_run_handler: "frame p (snd (run_handler h p))"
proof (cases h)
  case (NavToggleClick t m)
  then show ?thesis by (simp add: navToggleClick_def frame_def)
next
  case (NavLinkClick t m)
  then show ?thesis by (simp add: navLinkClick_def frame_def Let_def split: option.splits)
next
  case (NavScroll n)
  have "frame (modify k f p) (updateActiveNavLink (modify k f p))" for k f by simp
  then have "frame p (updateActiveNavLink (modify k f p))" for k f
    using frame_trans frame_modify by blast
  with NavScroll show ?thesis by (simp add: navScroll_def split: option.splits)
next
  case (BackToTopScroll b)
  then show ?thesis by (simp add: backToTopScroll_def)
next
  case BackToTopClick
  then show ?thesis by (simp add: backToTopClick_def frame_def)
qed

lemma frame_invoke: "frame p (invoke tg ev l p)"
proof (cases l)
  case (Listener tg' ev' h)
  show ?thesis
    using frame_run_handler [of p h]
    by (auto simp: Listener frame_def split: prod.splits option.splits)
qed

lemma frame_fold_invoke: "frame p (fold (invoke tg ev) ls p)"
  by (rule frame_fold) (rule frame_invoke)

lemma hasClass_add [simp]: "hasClass c (classList_add c e)"
  by (simp add: hasClass_def classList_add_def)

lemma hasClass_remove [simp]: "\<not> hasClass c (classList_remove c e)"
  by (simp add: hasClass_def classList_remove_def)

lemma backToTopScroll_visible:
  "b < length (elements q) \<Longrightarrow>
   hasClass ''visible'' (elements (backToTopScroll b q) ! b) = (scrollY q > 500)"
  by (simp add: backToTopScroll_def)

lemma listeners_initPage:
  "getElementById ''backToTop'' p = Some b \<Longrightarrow>
   listeners (initPage p) = listeners (initNavigation p) @
     [Listener Window Scroll (BackToTopScroll b), Listener (Elem b) Click BackToTopClick]"
  by (simp add: initPage_def initBackToTop_def initCounters_def getElementById_def initNavigation_def Let_def)

lemma scroll_decides:
  assumes ls: "listeners p = pre @ [Listener Window Scroll (BackToTopScroll b), Listener (Elem b) Click BackToTopClick]"
    and b: "b < length (elements p)"
  shows "hasClass ''visible'' (elements (scrollEvent y p) ! b) = (y > 500)"
proof -
  let ?p = "p\<lparr>scrollY := y\<rparr>"
  let ?q = "fold (invoke Window Scroll) pre ?p"
  have fr: "frame ?p ?q" by (rule frame_fold_invoke)
  then have q: "scrollY ?q = y" "length (elements ?q) = length (elements p)"
    by (simp_all add: frame_def)
  have "scrollEvent y p = backToTopScroll b ?q"
    by (simp add: scrollEvent_def dispatch_def ls)
  then show ?thesis
    using backToTopScroll_visible [of b ?q] b q by simp
qed

text \<open>
  Claim C8. After the page is wired, a scroll event leaves the back-to-top button marked
  visible exactly when the scroll offset is above 500: at 500 and below the mark is
  removed. The listeners registered before the button's own do not change the outcome.
\<close>

theorem back_to_top_threshold:
  assumes "getElementById ''backToTop'' p = Some b"
  shows "hasClass ''visible'' (elements (scrollEvent y (initPage p)) ! b) = (y > 500)"
proof -
  have "elements (initPage p) = elements p"
    using assms by (simp add: initPage_def initBackToTop_def initCounters_def getElementById_def initNavigation_def Let_def)
  then have "b < length (elements (initPage p))"
    using getElementById_bound [OF assms] by simp
  then show ?thesis
    using scroll_decides [OF listeners_initPage [OF assms]] by simp
qed


theorem back_to_top_threshold_witness:
  "getElementById ''backToTop'' sample_page = Some 12
   \<and> hasClass ''visible'' (elements (scrollEvent 501 (initPage sample_page)) ! 12)
   \<and> \<not> hasClass ''visible'' (elements (scrollEvent 500 (initPage sample_page)) ! 12)"
proof -
  have h: "getElementById ''backToTop'' sample_page = Some 12"
    by (simp add: getElementById_def sample_page_def fresh_page_def sample_elements_def blank_def)
  show ?thesis
    using h back_to_top_threshold [OF h, of 501] back_to_top_threshold [OF h, of 500] by simp
qed

section \<open>Navigation links without a menu toggle\<close>

lemma fold_nav_link_listeners:
  assumes "distinct xs"
  shows "fold (invoke (Elem l) Click) (map (\<lambda>x. Listener (Elem x) Click (NavLinkClick None m)) xs) q
         = (if l \<in> set xs then q\<lparr>uncaught := uncaught q @ [TypeError]\<rparr> else q)"
  using assms
proof (induction xs arbitrary: q)
  case Nil
  show ?case by simp
next
  case (Cons x xs)
  then show ?case by (auto simp: navLinkClick_def)
qed

lemma distinct_querySelectorAll_class: "distinct (querySelectorAll_class c p)"
  by (simp add: querySelectorAll_class_def)

text \<open>
  Claim C9. When the page has no \<^verbatim>\<open>navToggle\<close> element, \<^verbatim>\<open>initNavigation\<close> registers no
  listener for the menu toggle (that wiring is guarded) but still registers, on every
  element of class \<^verbatim>\<open>nav-link\<close>, a click listener that captured the missing toggle. That
  listener throws a \<^verbatim>\<open>TypeError\<close> on whatever page it runs, and a click on a navigation
  link leaves the page as it was, with the exception reported, instead of closing the
  menu.
\<close>

theorem nav_link_click_throws:
  assumes "getElementById ''navToggle'' p = None"
    and "l \<in> set (querySelectorAll_class ''nav-link'' p)"
    and "listeners p = []"
  shows "listeners (initNavigation p) =
           map (\<lambda>x. Listener (Elem x) Click (NavLinkClick None (getElementById ''navMenu'' p)))
             (querySelectorAll_class ''nav-link'' p)
           @ [Listener Window Scroll (NavScroll (getElementById ''navbar'' p))]
       \<and> run_handler (NavLinkClick None (getElementById ''navMenu'' p)) q = (Some TypeError, q)
       \<and> dispatch (Elem l) Click (initNavigation p)
           = (initNavigation p)\<lparr>uncaught := uncaught p @ [TypeError]\<rparr>"
proof -
  have ls: "listeners (initNavigation p) =
           map (\<lambda>x. Listener (Elem x) Click (NavLinkClick None (getElementById ''navMenu'' p)))
             (querySelectorAll_class ''nav-link'' p)
           @ [Listener Window Scroll (NavScroll (getElementById ''navbar'' p))]"
    using assms(1,3) by (simp add: initNavigation_def Let_def)
  have u: "uncaught (initNavigation p) = uncaught p"
    by (simp add: initNavigation_def Let_def)
  have "dispatch (Elem l) Click (initNavigation p)
           = (initNavigation p)\<lparr>uncaught := uncaught p @ [TypeError]\<rparr>"
    unfolding dispatch_def ls
    using assms(2) u
    by (simp add: fold_nav_link_listeners [OF distinct_querySelectorAll_class])
  then show ?thesis using ls by (simp add: navLinkClick_def)
qed

theorem nav_link_click_throws_witness:
  "getElementById ''navToggle'' (fresh_page (drop 2 sample_elements)) = None
   \<and> 1 \<in> set (querySelectorAll_class ''nav-link'' (fresh_page (drop 2 sample_elements)))
   \<and> listeners (fresh_page (drop 2 sample_elements)) = []
   \<and> uncaught (dispatch (Elem 1) Click (initNavigation (fresh_page (drop 2 sample_elements)))) = [TypeError]
   \<and> elements (dispatch (Elem 1) Click (initNavigation (fresh_page (drop 2 sample_elements))))
       = drop 2 sample_elements"
proof -
  let ?p = "fresh_page (drop 2 sample_elements)"
  have h1: "getElementById ''navToggle'' ?p = None"
    by (simp add: getElementById_def fresh_page_def sample_elements_def blank_def)
  have h2: "1 \<in> set (querySelectorAll_class ''nav-link'' ?p)"
    by (simp add: querySelectorAll_class_def hasClass_def fresh_page_def sample_elements_def blank_def)
  have h3: "listeners ?p = []"
    by (simp add: fresh_page_def)
  have e: "elements (initNavigation ?p) = drop 2 sample_elements" "uncaught ?p = []"
    by (simp_all add: initNavigation_def Let_def fresh_page_def)
  show ?thesis
    using h1 h2 h3 e nav_link_click_throws [OF h1 h2 h3] by simp
qed

lemma find_index_map: "find_index P (map f xs) = find_index (\<lambda>x. P (f x)) xs"
  by (induction xs) simp_all

lemma getElementById_ids:
  "getElementById s p = find_index (\<lambda>x. x = Some s) (map elemId (elements p))"
  by (simp add: getElementById_def find_index_map)

lemma getElementById_elemId:
  "getElementById s p = Some i \<Longrightarrow> elemId (elements p ! i) = Some s"
  by (auto simp: getElementById_def dest: find_index_Some)

lemma ids_modify:
  assumes "elemId (f (elements p ! i)) = elemId (elements p ! i)"
  shows "map elemId (elements (modify i f p)) = map elemId (elements p)"
proof (cases "i < length (elements p)")
  case True
  have "(map elemId (elements p))[i := map elemId (elements p) ! i] = map elemId (elements p)"
    by (rule list_update_id)
  with True assms show ?thesis by (simp add: map_update)
next
  case False
  then show ?thesis by (simp add: list_update_beyond)
qed

lemma getElementById_modify:
  assumes "elemId (f (elements p ! i)) = elemId (elements p ! i)"
  shows "getElementById s (modify i f p) = getElementById s p"
  using ids_modify [of f p i] assms by (simp only: getElementById_ids)

section \<open>Rendering does nothing without a container or without data\<close>

text \<open>
  Claim C10. \<^verbatim>\<open>renderThesis\<close> looks only at the truthiness of the title: whenever the
  title is falsy (absent, \<^verbatim>\<open>null\<close>, \<^verbatim>\<open>false\<close>, \<open>0\<close> or the empty string) it returns
  without an exception and leaves the whole page as it was, whatever the other fields of
  the thesis hold.
\<close>

theorem renderThesis_falsy_title:
  assumes "\<not> truthy (title (thesisData p))"
  shows "renderThesis p = (None, p)"
  using assms by (simp add: renderThesis_def split: option.splits)

theorem renderThesis_falsy_title_witness:
  "\<not> truthy (title (thesisData (sample_page\<lparr>thesisData := \<lparr>title = JStr [], topic = JStr ''T'',
        description = JStr ''D'', keyFeatures = Some [''a'', ''b''], link = JStr ''t.pdf''\<rparr>\<rparr>)))
   \<and> renderThesis (sample_page\<lparr>thesisData := \<lparr>title = JStr [], topic = JStr ''T'',
        description = JStr ''D'', keyFeatures = Some [''a'', ''b''], link = JStr ''t.pdf''\<rparr>\<rparr>)
      = (None, sample_page\<lparr>thesisData := \<lparr>title = JStr [], topic = JStr ''T'',
        description = JStr ''D'', keyFeatures = Some [''a'', ''b''], link = JStr ''t.pdf''\<rparr>\<rparr>)"
proof -
  let ?p = "sample_page\<lparr>thesisData := \<lparr>title = JStr [], topic = JStr ''T'',
        description = JStr ''D'', keyFeatures = Some [''a'', ''b''], link = JStr ''t.pdf''\<rparr>\<rparr>"
  have h: "\<not> truthy (title (thesisData ?p))" by simp
  show ?thesis using h renderThesis_falsy_title [OF h] by simp
qed

text \<open>
  Claim C2. Each of the four render functions returns the page unchanged, the container
  and every other part of the state included, when its container is not on the page or
  when its slot holds no data: the empty array for the three lists, an object without a
  title for the thesis.
\<close>

theorem render_noop:
  "(getElementById ''educationModules'' p = None \<or> educationModules p = [] \<longrightarrow> renderEducationModules p = p)
 \<and> (getElementById ''thesisContent'' p = None \<or> title (thesisData p) = JUndefined \<longrightarrow> renderThesis p = (None, p))
 \<and> (getElementById ''courseworksList'' p = None \<or> courseworks p = [] \<longrightarrow> renderCourseworks p = p)
 \<and> (getElementById ''practicalsList'' p = None \<or> practicalWorks p = [] \<longrightarrow> renderPracticalWorks p = p)"
  by (auto simp: renderEducationModules_def renderThesis_def renderCourseworks_def
      renderPracticalWorks_def split: option.splits)

theorem render_noop_witness:
  "educationModules sample_page = [] \<and> renderEducationModules sample_page = sample_page
 \<and> title (thesisData sample_page) = JUndefined \<and> renderThesis sample_page = (None, sample_page)
 \<and> getElementById ''courseworksList'' (fresh_page []\<lparr>courseworks :=
        [\<lparr>cw_title = ''A'', cw_semester = ''1'', cw_description = ''B'', technologies = [''C''], cw_link = ''l''\<rparr>]\<rparr>) = None
 \<and> renderCourseworks (fresh_page []\<lparr>courseworks :=
        [\<lparr>cw_title = ''A'', cw_semester = ''1'', cw_description = ''B'', technologies = [''C''], cw_link = ''l''\<rparr>]\<rparr>)
     = fresh_page []\<lparr>courseworks :=
        [\<lparr>cw_title = ''A'', cw_semester = ''1'', cw_description = ''B'', technologies = [''C''], cw_link = ''l''\<rparr>]\<rparr>
 \<and> practicalWorks sample_page = [] \<and> renderPracticalWorks sample_page = sample_page"
proof -
  let ?q = "fresh_page []\<lparr>courseworks :=
        [\<lparr>cw_title = ''A'', cw_semester = ''1'', cw_description = ''B'', technologies = [''C''], cw_link = ''l''\<rparr>]\<rparr>"
  have h: "educationModules sample_page = []" "title (thesisData sample_page) = JUndefined"
    "practicalWorks sample_page = []"
    by (simp_all add: sample_page_def fresh_page_def empty_thesis_def)
  have g: "getElementById ''courseworksList'' ?q = None"
    by (simp add: getElementById_def fresh_page_def)
  show ?thesis
    using h g render_noop [of sample_page] render_noop [of ?q] by simp
qed


section \<open>Toggling a module\<close>

lemma distinct_ids_distinct_elements:
  assumes "getElementById s p = Some i" and "getElementById s' p = Some j" and "s \<noteq> s'"
  shows "i \<noteq> j"
  using getElementById_elemId [OF assms(1)] getElementById_elemId [OF assms(2)] assms(3) by auto

lemma toggleModule_present:
  assumes c: "getElementById (''module-content-'' @ show_nat index) p = Some c"
    and i: "getElementById (''module-icon-'' @ show_nat index) p = Some i"
  shows "toggleModule index p =
     (if styleDisplay (elements p ! c) = ''none''
      then restyle c ''block'' i ''rotate(180deg)'' p
      else restyle c ''none'' i ''rotate(0deg)'' p)"
proof -
  have "c \<noteq> i"
    using distinct_ids_distinct_elements [OF c i] by simp
  then show ?thesis
    using c i by (simp add: toggleModule_def modify_def restyle_def)
qed

lemma restyle_ids: "getElementById s (restyle c d i t p) = getElementById s p"
proof -
  have "restyle c d i t p
      = modify i (\<lambda>e. e\<lparr>styleTransform := t\<rparr>) (modify c (\<lambda>e. e\<lparr>styleDisplay := d\<rparr>) p)"
    if "c \<noteq> i"
    using that by (simp add: restyle_def modify_def)
  moreover have "restyle c d c t p
      = modify c (\<lambda>e. e\<lparr>styleDisplay := styleDisplay (elements p ! c), styleTransform := t\<rparr>) p"
    by (simp add: restyle_def modify_def)
  ultimately show ?thesis
    by (cases "c = i") (simp_all add: getElementById_modify del: modify_simps)
qed

lemma restyle_display:
  "c \<noteq> i \<Longrightarrow> c < length (elements p) \<Longrightarrow> styleDisplay (elements (restyle c d i t p) ! c) = d"
  by (simp add: restyle_def)

lemma restyle_restyle:
  assumes "c \<noteq> i"
  shows "restyle c d' i t' (restyle c d i t p) = restyle c d' i t' p"
proof -
  have "elements (restyle c d' i t' (restyle c d i t p)) = elements (restyle c d' i t' p)"
  proof (rule nth_equalityI)
    show "length (elements (restyle c d' i t' (restyle c d i t p))) = length (elements (restyle c d' i t' p))"
      by (simp add: restyle_def)
  next
    fix k
    assume "k < length (elements (restyle c d' i t' (restyle c d i t p)))"
    then have k: "k < length (elements p)"
      by (simp add: restyle_def)
    show "elements (restyle c d' i t' (restyle c d i t p)) ! k = elements (restyle c d' i t' p) ! k"
      using assms k by (cases "k = c"; cases "k = i") (simp_all add: restyle_def)
  qed
  then show ?thesis by (simp add: restyle_def)
qed

lemma restyle_same:
  assumes "styleDisplay (elements p ! c) = d" and "styleTransform (elements p ! i) = t"
  shows "restyle c d i t p = p"
proof -
  have "elements (restyle c d i t p) = elements p"
  proof (rule nth_equalityI)
    show "length (elements (restyle c d i t p)) = length (elements p)"
      by (simp add: restyle_def)
  next
    fix k
    assume "k < length (elements (restyle c d i t p))"
    then have k: "k < length (elements p)"
      by (simp add: restyle_def)
    show "elements (restyle c d i t p) ! k = elements p ! k"
      using assms k by (cases "k = c"; cases "k = i") (auto simp: restyle_def)
  qed
  then show ?thesis by (simp add: restyle_def)
qed

text \<open>
  Claim C5, amended. For a module entry whose content and icon elements are on the
  page: from every state that \<^verbatim>\<open>toggleModule\<close> has produced, two further applications
  give back the whole page; two applications give back the display whenever it was
  \<^verbatim>\<open>none\<close> or \<^verbatim>\<open>block\<close>; and they give back the whole page whenever the entry was in
  one of the two states the function writes, display \<^verbatim>\<open>none\<close> with transform
  \<^verbatim>\<open>rotate(0deg)\<close> or display \<^verbatim>\<open>block\<close> with transform \<^verbatim>\<open>rotate(180deg)\<close>.
\<close>

theorem toggle_twice:
  assumes c: "getElementById (''module-content-'' @ show_nat index) p = Some c"
    and i: "getElementById (''module-icon-'' @ show_nat index) p = Some i"
  shows "toggleModule index (toggleModule index (toggleModule index p)) = toggleModule index p
    \<and> (styleDisplay (elements p ! c) = ''none'' \<or> styleDisplay (elements p ! c) = ''block''
         \<longrightarrow> styleDisplay (elements (toggleModule index (toggleModule index p)) ! c)
             = styleDisplay (elements p ! c))
    \<and> (styleDisplay (elements p ! c) = ''none'' \<and> styleTransform (elements p ! i) = ''rotate(0deg)''
       \<or> styleDisplay (elements p ! c) = ''block'' \<and> styleTransform (elements p ! i) = ''rotate(180deg)''
         \<longrightarrow> toggleModule index (toggleModule index p) = p)"
proof -
  have ci: "c \<noteq> i"
    using distinct_ids_distinct_elements [OF c i] by simp
  have cb: "c < length (elements p)" and ib: "i < length (elements p)"
    using getElementById_bound c i by auto
  let ?opened = "restyle c ''block'' i ''rotate(180deg)'' p"
  let ?closed = "restyle c ''none'' i ''rotate(0deg)'' p"
  have t_opened: "toggleModule index ?opened = ?closed"
  proof -
    have "toggleModule index ?opened = restyle c ''none'' i ''rotate(0deg)'' ?opened"
      using toggleModule_present [of index ?opened c i] c i ci cb
      by (simp add: restyle_ids restyle_display)
    then show ?thesis using ci by (simp add: restyle_restyle)
  qed
  have t_closed: "toggleModule index ?closed = ?opened"
  proof -
    have "toggleModule index ?closed = restyle c ''block'' i ''rotate(180deg)'' ?closed"
      using toggleModule_present [of index ?closed c i] c i ci cb
      by (simp add: restyle_ids restyle_display)
    then show ?thesis using ci by (simp add: restyle_restyle)
  qed
  have t: "toggleModule index p = (if styleDisplay (elements p ! c) = ''none'' then ?opened else ?closed)"
    by (rule toggleModule_present [OF c i])
  have three: "toggleModule index (toggleModule index (toggleModule index p)) = toggleModule index p"
    by (simp add: t t_opened t_closed)
  have two: "toggleModule index (toggleModule index p)
      = (if styleDisplay (elements p ! c) = ''none'' then ?closed else ?opened)"
    by (simp add: t t_opened t_closed)
  have d: "styleDisplay (elements p ! c) = ''none'' \<or> styleDisplay (elements p ! c) = ''block''
         \<longrightarrow> styleDisplay (elements (toggleModule index (toggleModule index p)) ! c)
             = styleDisplay (elements p ! c)"
    using ci cb by (auto simp: two restyle_display)
  have f: "styleDisplay (elements p ! c) = ''none'' \<and> styleTransform (elements p ! i) = ''rotate(0deg)''
       \<or> styleDisplay (elements p ! c) = ''block'' \<and> styleTransform (elements p ! i) = ''rotate(180deg)''
         \<longrightarrow> toggleModule index (toggleModule index p) = p"
    by (auto simp: two restyle_same)
  from three d f show ?thesis by blast
qed

theorem toggle_twice_witness:
  "getElementById (''module-content-'' @ show_nat 0) sample_page = Some 13
   \<and> getElementById (''module-icon-'' @ show_nat 0) sample_page = Some 14
   \<and> styleDisplay (elements sample_page ! 13) = ''none''
   \<and> toggleModule 0 (toggleModule 0 (toggleModule 0 sample_page)) = toggleModule 0 sample_page
   \<and> styleDisplay (elements (toggleModule 0 (toggleModule 0 sample_page)) ! 13) = ''none''
   \<and> styleDisplay (elements (toggleModule 0 sample_page) ! 13) = ''block''
   \<and> styleTransform (elements (toggleModule 0 sample_page) ! 14) = ''rotate(180deg)''
   \<and> toggleModule 0 (toggleModule 0 (toggleModule 0 sample_page)) = toggleModule 0 sample_page"
proof -
  have c: "getElementById (''module-content-'' @ show_nat 0) sample_page = Some 13"
    by (simp add: getElementById_def show_nat.simps digit_char_def
        sample_page_def fresh_page_def sample_elements_def blank_def)
  have i: "getElementById (''module-icon-'' @ show_nat 0) sample_page = Some 14"
    by (simp add: getElementById_def show_nat.simps digit_char_def
        sample_page_def fresh_page_def sample_elements_def blank_def)
  have d: "styleDisplay (elements sample_page ! 13) = ''none''"
    by (simp add: sample_page_def fresh_page_def sample_elements_def blank_def)
  have o: "styleDisplay (elements (toggleModule 0 sample_page) ! 13) = ''block''
      \<and> styleTransform (elements (toggleModule 0 sample_page) ! 14) = ''rotate(180deg)''"
    by (simp add: toggleModule_def getElementById_def modify_def show_nat.simps digit_char_def
      sample_page_def fresh_page_def sample_elements_def blank_def)
  show ?thesis
    using c i d o toggle_twice [OF c i] by simp
qed

text \<open>
  As the markup of \<^verbatim>\<open>renderEducationModules\<close> leaves it, the content has display
  \<^verbatim>\<open>none\<close> and the icon has no transform. Two applications then leave the icon with the
  transform \<^verbatim>\<open>rotate(0deg)\<close>, which is not the value it had.
\<close>

theorem toggle_twice_counterexample:
  "getElementById (''module-content-'' @ show_nat 0) sample_page = Some 13
   \<and> getElementById (''module-icon-'' @ show_nat 0) sample_page = Some 14
   \<and> styleTransform (elements sample_page ! 14) = []
   \<and> styleTransform (elements (toggleModule 0 (toggleModule 0 sample_page)) ! 14) = ''rotate(0deg)''
   \<and> styleTransform (elements (toggleModule 0 (toggleModule 0 sample_page)) ! 14)
       \<noteq> styleTransform (elements sample_page ! 14)"
  by (simp add: toggleModule_def getElementById_def modify_def show_nat.simps digit_char_def
      sample_page_def fresh_page_def sample_elements_def blank_def)


section \<open>Loading: which sources are fetched, stored and rendered\<close>

lemma content_of_elements: "elements q = elements p \<Longrightarrow> content_of s q = content_of s p"
  by (simp add: content_of_def getElementById_def)

lemma content_of_modify_other:
  assumes c: "getElementById s0 p = Some c" and ne: "s \<noteq> s0"
    and keep: "elemId (f (elements p ! c)) = elemId (elements p ! c)"
  shows "content_of s (modify c f p) = content_of s p"
proof (cases "getElementById s p")
  case None
  then show ?thesis
    using getElementById_modify [of f p c s] keep by (simp add: content_of_def)
next
  case (Some j)
  then have "j \<noteq> c"
    using distinct_ids_distinct_elements [OF Some c ne] by simp
  then show ?thesis
    using Some getElementById_modify [of f p c s] keep by (simp add: content_of_def)
qed

lemma fetch_simps [simp]:
  "elements (fetch u p) = elements p"
  "fetched (fetch u p) = fetched p @ [u]"
  "console (fetch u p) = console p"
  "educationModules (fetch u p) = educationModules p"
  "thesisData (fetch u p) = thesisData p"
  "courseworks (fetch u p) = courseworks p"
  "practicalWorks (fetch u p) = practicalWorks p"
  by (simp_all add: fetch_def)

lemma content_of_fetch [simp]: "content_of s (fetch u p) = content_of s p"
  by (rule content_of_elements) simp

text \<open>What each render function leaves alone.\<close>

lemma renderEducationModules_fields [simp]:
  "fetched (renderEducationModules p) = fetched p"
  "console (renderEducationModules p) = console p"
  "educationModules (renderEducationModules p) = educationModules p"
  "thesisData (renderEducationModules p) = thesisData p"
  "courseworks (renderEducationModules p) = courseworks p"
  "practicalWorks (renderEducationModules p) = practicalWorks p"
  by (simp_all add: renderEducationModules_def split: option.splits)

lemma renderCourseworks_fields [simp]:
  "fetched (renderCourseworks p) = fetched p"
  "console (renderCourseworks p) = console p"
  "educationModules (renderCourseworks p) = educationModules p"
  "thesisData (renderCourseworks p) = thesisData p"
  "courseworks (renderCourseworks p) = courseworks p"
  "practicalWorks (renderCourseworks p) = practicalWorks p"
  by (simp_all add: renderCourseworks_def split: option.splits)

lemma renderPracticalWorks_fields [simp]:
  "fetched (renderPracticalWorks p) = fetched p"
  "console (renderPracticalWorks p) = console p"
  "educationModules (renderPracticalWorks p) = educationModules p"
  "thesisData (renderPracticalWorks p) = thesisData p"
  "courseworks (renderPracticalWorks p) = courseworks p"
  "practicalWorks (renderPracticalWorks p) = practicalWorks p"
  by (simp_all add: renderPracticalWorks_def split: option.splits)

lemma renderThesis_fields [simp]:
  "fetched (snd (renderThesis p)) = fetched p"
  "console (snd (renderThesis p)) = console p"
  "educationModules (snd (renderThesis p)) = educationModules p"
  "thesisData (snd (renderThesis p)) = thesisData p"
  "courseworks (snd (renderThesis p)) = courseworks p"
  "practicalWorks (snd (renderThesis p)) = practicalWorks p"
  by (simp_all add: renderThesis_def split: option.splits)

lemma renderEducationModules_other:
  "s \<noteq> ''educationModules'' \<Longrightarrow> content_of s (renderEducationModules p) = content_of s p"
  by (simp add: renderEducationModules_def content_of_modify_other split: option.splits)

lemma renderThesis_other:
  "s \<noteq> ''thesisContent'' \<Longrightarrow> content_of s (snd (renderThesis p)) = content_of s p"
  by (simp add: renderThesis_def content_of_modify_other split: option.splits)

lemma renderCourseworks_other:
  "s \<noteq> ''courseworksList'' \<Longrightarrow> content_of s (renderCourseworks p) = content_of s p"
  by (simp add: renderCourseworks_def content_of_modify_other split: option.splits)

lemma renderPracticalWorks_other:
  "s \<noteq> ''practicalsList'' \<Longrightarrow> content_of s (renderPracticalWorks p) = content_of s p"
  by (simp add: renderPracticalWorks_def content_of_modify_other split: option.splits)

text \<open>The content a render function leaves in its own container.\<close>

lemma content_of_modify_own:
  "getElementById s p = Some c \<Longrightarrow>
   content_of s (modify c (\<lambda>e. e\<lparr>innerHTML := h\<rparr>) p) = Some h"
  using getElementById_modify [of "\<lambda>e. e\<lparr>innerHTML := h\<rparr>" p c s] getElementById_bound [of s p c]
  by (simp add: content_of_def)

lemma content_of_None: "(content_of s p = None) = (getElementById s p = None)"
  by (simp add: content_of_def)

lemma renderEducationModules_own:
  "content_of ''educationModules'' (renderEducationModules p) =
     (if educationModules p = [] then content_of ''educationModules'' p
      else map_option (\<lambda>_. modules_markup (educationModules p)) (content_of ''educationModules'' p))"
proof (cases "getElementById ''educationModules'' p")
  case None
  then show ?thesis
    by (simp add: renderEducationModules_def content_of_def)
next
  case (Some c)
  then have "content_of ''educationModules'' p \<noteq> None"
    by (simp add: content_of_None)
  then show ?thesis
    using Some by (auto simp: renderEducationModules_def content_of_modify_own)
qed


lemma renderThesis_own:
  "content_of ''thesisContent'' (snd (renderThesis p)) =
     (if truthy (title (thesisData p))
      then (case keyFeatures (thesisData p) of
              None \<Rightarrow> content_of ''thesisContent'' p
            | Some features \<Rightarrow>
                map_option (\<lambda>_. thesis_markup (thesisData p) features) (content_of ''thesisContent'' p))
      else content_of ''thesisContent'' p)"
proof (cases "getElementById ''thesisContent'' p")
  case None
  then show ?thesis
    by (simp add: renderThesis_def content_of_def split: option.splits)
next
  case (Some c)
  then have "content_of ''thesisContent'' p \<noteq> None"
    by (simp add: content_of_None)
  then show ?thesis
    using Some by (auto simp: renderThesis_def content_of_modify_own split: option.splits)
qed

lemma renderCourseworks_own:
  "content_of ''courseworksList'' (renderCourseworks p) =
     (if courseworks p = [] then content_of ''courseworksList'' p
      else map_option (\<lambda>_. courseworks_markup (courseworks p)) (content_of ''courseworksList'' p))"
proof (cases "getElementById ''courseworksList'' p")
  case None
  then show ?thesis
    by (simp add: renderCourseworks_def content_of_def)
next
  case (Some c)
  then have "content_of ''courseworksList'' p \<noteq> None"
    by (simp add: content_of_None)
  then show ?thesis
    using Some by (auto simp: renderCourseworks_def content_of_modify_own)
qed

lemma renderPracticalWorks_own:
  "content_of ''practicalsList'' (renderPracticalWorks p) =
     (if practicalWorks p = [] then content_of ''practicalsList'' p
      else map_option (\<lambda>_. practicals_markup (practicalWorks p)) (content_of ''practicalsList'' p))"
proof (cases "getElementById ''practicalsList'' p")
  case None
  then show ?thesis
    by (simp add: renderPracticalWorks_def content_of_def)
next
  case (Some c)
  then have "content_of ''practicalsList'' p \<noteq> None"
    by (simp add: content_of_None)
  then show ?thesis
    using Some by (auto simp: renderPracticalWorks_def content_of_modify_own)
qed

lemma content_of_slot_update [simp]:
  "content_of s (p\<lparr>educationModules := a\<rparr>) = content_of s p"
  "content_of s (p\<lparr>thesisData := b\<rparr>) = content_of s p"
  "content_of s (p\<lparr>courseworks := c\<rparr>) = content_of s p"
  "content_of s (p\<lparr>practicalWorks := d\<rparr>) = content_of s p"
  "content_of s (p\<lparr>console := e\<rparr>) = content_of s p"
  by (simp_all add: content_of_def getElementById_def)

text \<open>What each of the four loads does, by the response it gets.\<close>

lemma loadModules_cases:
  "modulesResponse net = Rejected \<Longrightarrow>
     loadModules net p = (Some NetworkError, fetch ''public/data/education_modules.json'' p)"
  "modulesResponse net = Response True None \<Longrightarrow>
     loadModules net p = (Some SyntaxError, fetch ''public/data/education_modules.json'' p)"
  "refused (modulesResponse net) \<Longrightarrow>
     loadModules net p = (None, fetch ''public/data/education_modules.json'' p)"
  "delivers (modulesResponse net) doc \<Longrightarrow>
     loadModules net p = (None, renderEducationModules
        ((fetch ''public/data/education_modules.json'' p)\<lparr>educationModules := doc\<rparr>))"
  by (simp_all add: loadModules_def refused_def delivers_def split: response.splits if_splits)

lemma loadThesis_cases:
  "thesisResponse net = Rejected \<Longrightarrow>
     loadThesis net p = (Some NetworkError, fetch ''public/data/thesis.json'' p)"
  "thesisResponse net = Response True None \<Longrightarrow>
     loadThesis net p = (Some SyntaxError, fetch ''public/data/thesis.json'' p)"
  "refused (thesisResponse net) \<Longrightarrow>
     loadThesis net p = (None, fetch ''public/data/thesis.json'' p)"
  "delivers (thesisResponse net) doc \<Longrightarrow>
     loadThesis net p = renderThesis ((fetch ''public/data/thesis.json'' p)\<lparr>thesisData := doc\<rparr>)"
  by (simp_all add: loadThesis_def refused_def delivers_def split: response.splits if_splits)

lemma loadCourseworks_cases:
  "courseworksResponse net = Rejected \<Longrightarrow>
     loadCourseworks net p = (Some NetworkError, fetch ''public/data/courseworks.json'' p)"
  "courseworksResponse net = Response True None \<Longrightarrow>
     loadCourseworks net p = (Some SyntaxError, fetch ''public/data/courseworks.json'' p)"
  "refused (courseworksResponse net) \<Longrightarrow>
     loadCourseworks net p = (None, fetch ''public/data/courseworks.json'' p)"
  "delivers (courseworksResponse net) doc \<Longrightarrow>
     loadCourseworks net p = (None, renderCourseworks
        ((fetch ''public/data/courseworks.json'' p)\<lparr>courseworks := doc\<rparr>))"
  by (simp_all add: loadCourseworks_def refused_def delivers_def split: response.splits if_splits)

lemma loadPractical_cases:
  "practicalResponse net = Rejected \<Longrightarrow>
     loadPractical net p = (Some NetworkError, fetch ''public/data/practical_works.json'' p)"
  "practicalResponse net = Response True None \<Longrightarrow>
     loadPractical net p = (Some SyntaxError, fetch ''public/data/practical_works.json'' p)"
  "refused (practicalResponse net) \<Longrightarrow>
     loadPractical net p = (None, fetch ''public/data/practical_works.json'' p)"
  "delivers (practicalResponse net) doc \<Longrightarrow>
     loadPractical net p = (None, renderPracticalWorks
        ((fetch ''public/data/practical_works.json'' p)\<lparr>practicalWorks := doc\<rparr>))"
  by (simp_all add: loadPractical_def refused_def delivers_def split: response.splits if_splits)

text \<open>What each load leaves alone, whatever the response.\<close>

lemma loadModules_frame [simp]:
  "fetched (snd (loadModules net p)) = fetched p @ [''public/data/education_modules.json'']"
  "console (snd (loadModules net p)) = console p"
  "thesisData (snd (loadModules net p)) = thesisData p"
  "courseworks (snd (loadModules net p)) = courseworks p"
  "practicalWorks (snd (loadModules net p)) = practicalWorks p"
  by (simp_all add: loadModules_def Let_def split: response.splits option.splits)

lemma loadModules_other [simp]:
  "s \<noteq> ''educationModules'' \<Longrightarrow> content_of s (snd (loadModules net p)) = content_of s p"
  by (simp add: loadModules_def Let_def renderEducationModules_other split: response.splits option.splits)

lemma loadThesis_frame [simp]:
  "fetched (snd (loadThesis net p)) = fetched p @ [''public/data/thesis.json'']"
  "console (snd (loadThesis net p)) = console p"
  "educationModules (snd (loadThesis net p)) = educationModules p"
  "courseworks (snd (loadThesis net p)) = courseworks p"
  "practicalWorks (snd (loadThesis net p)) = practicalWorks p"
  by (simp_all add: loadThesis_def Let_def split: response.splits option.splits)

lemma loadThesis_other [simp]:
  "s \<noteq> ''thesisContent'' \<Longrightarrow> content_of s (snd (loadThesis net p)) = content_of s p"
  by (simp add: loadThesis_def Let_def renderThesis_other split: response.splits option.splits)

lemma loadCourseworks_frame [simp]:
  "fetched (snd (loadCourseworks net p)) = fetched p @ [''public/data/courseworks.json'']"
  "console (snd (loadCourseworks net p)) = console p"
  "educationModules (snd (loadCourseworks net p)) = educationModules p"
  "thesisData (snd (loadCourseworks net p)) = thesisData p"
  "practicalWorks (snd (loadCourseworks net p)) = practicalWorks p"
  by (simp_all add: loadCourseworks_def Let_def split: response.splits option.splits)

lemma loadCourseworks_other [simp]:
  "s \<noteq> ''courseworksList'' \<Longrightarrow> content_of s (snd (loadCourseworks net p)) = content_of s p"
  by (simp add: loadCourseworks_def Let_def renderCourseworks_other split: response.splits option.splits)

lemma loadPractical_frame [simp]:
  "fetched (snd (loadPractical net p)) = fetched p @ [''public/data/practical_works.json'']"
  "console (snd (loadPractical net p)) = console p"
  "educationModules (snd (loadPractical net p)) = educationModules p"
  "thesisData (snd (loadPractical net p)) = thesisData p"
  "courseworks (snd (loadPractical net p)) = courseworks p"
  by (simp_all add: loadPractical_def Let_def split: response.splits option.splits)

lemma loadPractical_other [simp]:
  "s \<noteq> ''practicalsList'' \<Longrightarrow> content_of s (snd (loadPractical net p)) = content_of s p"
  by (simp add: loadPractical_def Let_def renderPracticalWorks_other split: response.splits option.splits)

text \<open>The page \<^verbatim>\<open>loadAllData\<close> ends with, by the first load that throws.\<close>

lemma loadAllData_stopped_1:
  assumes "fst (loadModules net p) = Some e"
  shows "loadAllData net p = (snd (loadModules net p))\<lparr>console := console p @ [e]\<rparr>"
  using assms loadModules_frame(2) [of net p]
  by (cases "loadModules net p") (simp add: loadAllData_def seq_def)

lemma loadAllData_stopped_2:
  assumes "completes (loadModules net) p"
    and "fst (loadThesis net (snd (loadModules net p))) = Some e"
  shows "loadAllData net p
      = (snd (loadThesis net (snd (loadModules net p))))\<lparr>console := console p @ [e]\<rparr>"
proof -
  obtain q1 where q1: "loadModules net p = (None, q1)"
    using assms(1) by (cases "loadModules net p") (simp add: completes_def)
  obtain q2 where q2: "loadThesis net q1 = (Some e, q2)"
    using assms(2) q1 by (cases "loadThesis net q1") simp
  have "console q2 = console p"
    using loadThesis_frame(2) [of net q1] loadModules_frame(2) [of net p] q1 q2 by simp
  then show ?thesis
    by (simp add: loadAllData_def seq_def q1 q2)
qed

lemma loadAllData_stopped_3:
  assumes "completes (loadModules net) p"
    and "completes (loadThesis net) (snd (loadModules net p))"
    and "fst (loadCourseworks net (snd (loadThesis net (snd (loadModules net p))))) = Some e"
  shows "loadAllData net p
      = (snd (loadCourseworks net (snd (loadThesis net (snd (loadModules net p))))))
          \<lparr>console := console p @ [e]\<rparr>"
proof -
  obtain q1 where q1: "loadModules net p = (None, q1)"
    using assms(1) by (cases "loadModules net p") (simp add: completes_def)
  obtain q2 where q2: "loadThesis net q1 = (None, q2)"
    using assms(2) q1 by (cases "loadThesis net q1") (simp add: completes_def)
  obtain q3 where q3: "loadCourseworks net q2 = (Some e, q3)"
    using assms(3) q1 q2 by (cases "loadCourseworks net q2") simp
  have "console q3 = console p"
    using loadCourseworks_frame(2) [of net q2] loadThesis_frame(2) [of net q1]
      loadModules_frame(2) [of net p] q1 q2 q3 by simp
  then show ?thesis
    by (simp add: loadAllData_def seq_def q1 q2 q3)
qed

lemma loadAllData_stopped_4:
  assumes "completes (loadModules net) p"
    and "completes (loadThesis net) (snd (loadModules net p))"
    and "completes (loadCourseworks net) (snd (loadThesis net (snd (loadModules net p))))"
    and "fst (loadPractical net (snd (loadCourseworks net (snd (loadThesis net (snd (loadModules net p))))))) = Some e"
  shows "loadAllData net p
      = (snd (loadPractical net (snd (loadCourseworks net (snd (loadThesis net (snd (loadModules net p))))))))
          \<lparr>console := console p @ [e]\<rparr>"
proof -
  obtain q1 where q1: "loadModules net p = (None, q1)"
    using assms(1) by (cases "loadModules net p") (simp add: completes_def)
  obtain q2 where q2: "loadThesis net q1 = (None, q2)"
    using assms(2) q1 by (cases "loadThesis net q1") (simp add: completes_def)
  obtain q3 where q3: "loadCourseworks net q2 = (None, q3)"
    using assms(3) q1 q2 by (cases "loadCourseworks net q2") (simp add: completes_def)
  obtain q4 where q4: "loadPractical net q3 = (Some e, q4)"
    using assms(4) q1 q2 q3 by (cases "loadPractical net q3") simp
  have "console q4 = console p"
    using loadPractical_frame(2) [of net q3] loadCourseworks_frame(2) [of net q2]
      loadThesis_frame(2) [of net q1] loadModules_frame(2) [of net p] q1 q2 q3 q4 by simp
  then show ?thesis
    by (simp add: loadAllData_def seq_def q1 q2 q3 q4)
qed

lemma renderThesis_completes:
  "keyFeatures (thesisData p) \<noteq> None \<Longrightarrow> fst (renderThesis p) = None"
  by (auto simp: renderThesis_def split: option.splits)

lemma renderThesis_renderable:
  "renderable (thesisData p) \<Longrightarrow> fst (renderThesis p) = None"
  by (auto simp: renderThesis_def renderable_def split: option.splits)

lemmas skipped_defs = modules_skipped_def thesis_skipped_def courseworks_skipped_def practicals_skipped_def

lemmas loaded_defs = modules_loaded_def thesis_loaded_def courseworks_loaded_def practicals_loaded_def

lemmas own_content = renderEducationModules_own renderThesis_own renderCourseworks_own
  renderPracticalWorks_own

text \<open>An exception in one of the first three loads.\<close>

lemma stop_at_modules:
  assumes "loadModules net p = (Some e, fetch ''public/data/education_modules.json'' p)"
  shows "fetched (loadAllData net p) = fetched p @ [''public/data/education_modules.json'']
    \<and> console (loadAllData net p) = console p @ [e]
    \<and> modules_skipped p (loadAllData net p) \<and> thesis_skipped p (loadAllData net p)
    \<and> courseworks_skipped p (loadAllData net p) \<and> practicals_skipped p (loadAllData net p)"
proof -
  have "loadAllData net p = (fetch ''public/data/education_modules.json'' p)\<lparr>console := console p @ [e]\<rparr>"
    using loadAllData_stopped_1 [of net p e] assms by simp
  then show ?thesis by (simp add: skipped_defs)
qed

lemma stop_at_thesis:
  assumes "completes (loadModules net) p"
    and "\<And>q. loadThesis net q = (Some e, fetch ''public/data/thesis.json'' q)"
  shows "fetched (loadAllData net p) = fetched p @ [''public/data/education_modules.json'', ''public/data/thesis.json'']
    \<and> console (loadAllData net p) = console p @ [e]
    \<and> thesis_skipped p (loadAllData net p)
    \<and> courseworks_skipped p (loadAllData net p) \<and> practicals_skipped p (loadAllData net p)"
proof -
  have "loadAllData net p = (fetch ''public/data/thesis.json'' (snd (loadModules net p)))\<lparr>console := console p @ [e]\<rparr>"
    using loadAllData_stopped_2 [of net p e] assms by simp
  then show ?thesis by (simp add: skipped_defs)
qed

lemma stop_at_courseworks:
  assumes "completes (loadModules net) p"
    and "completes (loadThesis net) (snd (loadModules net p))"
    and "\<And>q. loadCourseworks net q = (Some e, fetch ''public/data/courseworks.json'' q)"
  shows "fetched (loadAllData net p) = fetched p @ [''public/data/education_modules.json'', ''public/data/thesis.json'', ''public/data/courseworks.json'']
    \<and> console (loadAllData net p) = console p @ [e]
    \<and> courseworks_skipped p (loadAllData net p) \<and> practicals_skipped p (loadAllData net p)"
proof -
  have "loadAllData net p
      = (fetch ''public/data/courseworks.json'' (snd (loadThesis net (snd (loadModules net p)))))\<lparr>console := console p @ [e]\<rparr>"
    using loadAllData_stopped_3 [of net p e] assms by simp
  then show ?thesis by (simp add: skipped_defs)
qed

lemma stop_at_practical:
  assumes "completes (loadModules net) p"
    and "completes (loadThesis net) (snd (loadModules net p))"
    and "completes (loadCourseworks net) (snd (loadThesis net (snd (loadModules net p))))"
    and "\<And>q. loadPractical net q = (Some e, fetch ''public/data/practical_works.json'' q)"
  shows "fetched (loadAllData net p) = fetched p @ [''public/data/education_modules.json'', ''public/data/thesis.json'', ''public/data/courseworks.json'', ''public/data/practical_works.json'']
    \<and> console (loadAllData net p) = console p @ [e]
    \<and> practicals_skipped p (loadAllData net p)"
proof -
  have "loadAllData net p
      = (fetch ''public/data/practical_works.json'' (snd (loadCourseworks net (snd (loadThesis net (snd (loadModules net p)))))))
          \<lparr>console := console p @ [e]\<rparr>"
    using loadAllData_stopped_4 [of net p e] assms by simp
  then show ?thesis by (simp add: skipped_defs)
qed

text \<open>
  Claim C3. When the body of a source is not valid JSON, \<^verbatim>\<open>loadAllData\<close> logs the
  \<^verbatim>\<open>SyntaxError\<close> and stops: only the sources up to that one have been fetched, and that
  source and every later one keep their slot and their container as they were. This is
  stated for the first three sources, each reached without an earlier exception.
\<close>

theorem parse_failure_stops_later_sources:
  assumes "p' = loadAllData net p"
  shows "(modulesResponse net = Response True None \<longrightarrow>
            fetched p' = fetched p @ [''public/data/education_modules.json'']
          \<and> console p' = console p @ [SyntaxError]
          \<and> modules_skipped p p' \<and> thesis_skipped p p'
          \<and> courseworks_skipped p p' \<and> practicals_skipped p p')
       \<and> (completes (loadModules net) p \<and> thesisResponse net = Response True None \<longrightarrow>
            fetched p' = fetched p @ [''public/data/education_modules.json'', ''public/data/thesis.json'']
          \<and> console p' = console p @ [SyntaxError]
          \<and> thesis_skipped p p' \<and> courseworks_skipped p p' \<and> practicals_skipped p p')
       \<and> (completes (loadModules net) p \<and> completes (loadThesis net) (snd (loadModules net p))
          \<and> courseworksResponse net = Response True None \<longrightarrow>
            fetched p' = fetched p @ [''public/data/education_modules.json'', ''public/data/thesis.json'', ''public/data/courseworks.json'']
          \<and> console p' = console p @ [SyntaxError]
          \<and> courseworks_skipped p p' \<and> practicals_skipped p p')"
  unfolding assms
  using stop_at_modules [of net p SyntaxError] stop_at_thesis [of net p SyntaxError]
    stop_at_courseworks [of net p SyntaxError]
  by (simp add: loadModules_cases(2) loadThesis_cases(2) loadCourseworks_cases(2))


theorem parse_failure_stops_later_sources_witness:
  "modulesResponse (sample_network\<lparr>modulesResponse := Response True None\<rparr>) = Response True None
   \<and> fetched (loadAllData (sample_network\<lparr>modulesResponse := Response True None\<rparr>) sample_page) = [''public/data/education_modules.json'']
   \<and> courseworks (loadAllData (sample_network\<lparr>modulesResponse := Response True None\<rparr>) sample_page) = []
   \<and> completes (loadModules (sample_network\<lparr>thesisResponse := Response True None\<rparr>)) sample_page
   \<and> thesisResponse (sample_network\<lparr>thesisResponse := Response True None\<rparr>) = Response True None
   \<and> fetched (loadAllData (sample_network\<lparr>thesisResponse := Response True None\<rparr>) sample_page) = [''public/data/education_modules.json'', ''public/data/thesis.json'']
   \<and> console (loadAllData (sample_network\<lparr>thesisResponse := Response True None\<rparr>) sample_page) = [SyntaxError]
   \<and> courseworks (loadAllData (sample_network\<lparr>thesisResponse := Response True None\<rparr>) sample_page) = []
   \<and> content_of ''practicalsList'' (loadAllData (sample_network\<lparr>thesisResponse := Response True None\<rparr>) sample_page) = Some []
   \<and> completes (loadModules (sample_network\<lparr>courseworksResponse := Response True None\<rparr>)) sample_page
   \<and> completes (loadThesis (sample_network\<lparr>courseworksResponse := Response True None\<rparr>))
        (snd (loadModules (sample_network\<lparr>courseworksResponse := Response True None\<rparr>) sample_page))
   \<and> courseworksResponse (sample_network\<lparr>courseworksResponse := Response True None\<rparr>) = Response True None
   \<and> fetched (loadAllData (sample_network\<lparr>courseworksResponse := Response True None\<rparr>) sample_page) = [''public/data/education_modules.json'', ''public/data/thesis.json'', ''public/data/courseworks.json'']
   \<and> practicalWorks (loadAllData (sample_network\<lparr>courseworksResponse := Response True None\<rparr>) sample_page) = []"
proof -
  let ?n1 = "sample_network\<lparr>modulesResponse := Response True None\<rparr>"
  let ?n2 = "sample_network\<lparr>thesisResponse := Response True None\<rparr>"
  let ?n3 = "sample_network\<lparr>courseworksResponse := Response True None\<rparr>"
  have a: "modulesResponse ?n1 = Response True None" by simp
  have b: "completes (loadModules ?n2) sample_page" "thesisResponse ?n2 = Response True None"
    by (simp_all add: completes_def loadModules_def sample_network_def)
  have c: "completes (loadModules ?n3) sample_page"
    "completes (loadThesis ?n3) (snd (loadModules ?n3 sample_page))"
    "courseworksResponse ?n3 = Response True None"
    by (simp_all add: completes_def loadModules_def loadThesis_def sample_network_def
      renderThesis_completes sample_thesis_def)
  have d: "fetched sample_page = []" "console sample_page = []" "courseworks sample_page = []"
    "practicalWorks sample_page = []" "content_of ''practicalsList'' sample_page = Some []"
    by (simp_all add: sample_page_def fresh_page_def content_of_def getElementById_def
      sample_elements_def blank_def)
  show ?thesis
    using a b c d
      parse_failure_stops_later_sources [of "loadAllData ?n1 sample_page" ?n1 sample_page]
      parse_failure_stops_later_sources [of "loadAllData ?n2 sample_page" ?n2 sample_page]
      parse_failure_stops_later_sources [of "loadAllData ?n3 sample_page" ?n3 sample_page]
    by (simp add: skipped_defs)
qed

lemma completed_run:
  assumes "\<And>q. loadModules net q = (None, fm q)" and "\<And>q. loadThesis net q = (None, ft q)"
    and "\<And>q. loadCourseworks net q = (None, fc q)" and "\<And>q. loadPractical net q = (None, fp q)"
  shows "loadAllData net p = fp (fc (ft (fm p)))"
  by (simp add: loadAllData_def seq_def assms)

lemma loadThesis_delivers:
  assumes "delivers (thesisResponse net) doc" and "renderable doc"
  shows "loadThesis net q = (None, snd (renderThesis ((fetch ''public/data/thesis.json'' q)\<lparr>thesisData := doc\<rparr>)))"
proof -
  have "fst (renderThesis ((fetch ''public/data/thesis.json'' q)\<lparr>thesisData := doc\<rparr>)) = None"
    using assms(2) by (simp add: renderThesis_renderable)
  then show ?thesis
    using loadThesis_cases(4) [OF assms(1), of q]
    by (cases "renderThesis ((fetch ''public/data/thesis.json'' q)\<lparr>thesisData := doc\<rparr>)") simp
qed

lemmas other_content = renderEducationModules_other renderThesis_other renderCourseworks_other
  renderPracticalWorks_other

lemma refused_modules_run:
  assumes "refused (modulesResponse net)" and "delivers (thesisResponse net) t"
    and "renderable t" and "delivers (courseworksResponse net) c"
    and "delivers (practicalResponse net) w"
  shows "modules_skipped p (loadAllData net p) \<and> thesis_loaded t p (loadAllData net p)
    \<and> courseworks_loaded c p (loadAllData net p) \<and> practicals_loaded w p (loadAllData net p)
    \<and> console (loadAllData net p) = console p
    \<and> fetched (loadAllData net p) = fetched p @ [''public/data/education_modules.json'', ''public/data/thesis.json'', ''public/data/courseworks.json'', ''public/data/practical_works.json'']"
  unfolding completed_run [of net, OF loadModules_cases(3) [OF assms(1)]
      loadThesis_delivers [OF assms(2,3)] loadCourseworks_cases(4) [OF assms(4)]
      loadPractical_cases(4) [OF assms(5)]]
  by (simp add: skipped_defs loaded_defs other_content own_content split: option.splits)


lemma refused_thesis_run:
  assumes "delivers (modulesResponse net) m" and "refused (thesisResponse net)"
    and "delivers (courseworksResponse net) c" and "delivers (practicalResponse net) w"
  shows "modules_loaded m p (loadAllData net p) \<and> thesis_skipped p (loadAllData net p)
    \<and> courseworks_loaded c p (loadAllData net p) \<and> practicals_loaded w p (loadAllData net p)
    \<and> console (loadAllData net p) = console p
    \<and> fetched (loadAllData net p) = fetched p @ [''public/data/education_modules.json'', ''public/data/thesis.json'', ''public/data/courseworks.json'', ''public/data/practical_works.json'']"
  unfolding completed_run [of net, OF loadModules_cases(4) [OF assms(1)]
      loadThesis_cases(3) [OF assms(2)] loadCourseworks_cases(4) [OF assms(3)]
      loadPractical_cases(4) [OF assms(4)]]
  by (simp add: skipped_defs loaded_defs other_content own_content split: option.splits)

lemma refused_courseworks_run:
  assumes "delivers (modulesResponse net) m" and "delivers (thesisResponse net) t"
    and "renderable t" and "refused (courseworksResponse net)"
    and "delivers (practicalResponse net) w"
  shows "modules_loaded m p (loadAllData net p) \<and> thesis_loaded t p (loadAllData net p)
    \<and> courseworks_skipped p (loadAllData net p) \<and> practicals_loaded w p (loadAllData net p)
    \<and> console (loadAllData net p) = console p
    \<and> fetched (loadAllData net p) = fetched p @ [''public/data/education_modules.json'', ''public/data/thesis.json'', ''public/data/courseworks.json'', ''public/data/practical_works.json'']"
  unfolding completed_run [of net, OF loadModules_cases(4) [OF assms(1)]
      loadThesis_delivers [OF assms(2,3)] loadCourseworks_cases(3) [OF assms(4)]
      loadPractical_cases(4) [OF assms(5)]]
  by (simp add: skipped_defs loaded_defs other_content own_content split: option.splits)

lemma refused_practical_run:
  assumes "delivers (modulesResponse net) m" and "delivers (thesisResponse net) t"
    and "renderable t" and "delivers (courseworksResponse net) c"
    and "refused (practicalResponse net)"
  shows "modules_loaded m p (loadAllData net p) \<and> thesis_loaded t p (loadAllData net p)
    \<and> courseworks_loaded c p (loadAllData net p) \<and> practicals_skipped p (loadAllData net p)
    \<and> console (loadAllData net p) = console p
    \<and> fetched (loadAllData net p) = fetched p @ [''public/data/education_modules.json'', ''public/data/thesis.json'', ''public/data/courseworks.json'', ''public/data/practical_works.json'']"
  unfolding completed_run [of net, OF loadModules_cases(4) [OF assms(1)]
      loadThesis_delivers [OF assms(2,3)] loadCourseworks_cases(4) [OF assms(4)]
      loadPractical_cases(3) [OF assms(5)]]
  by (simp add: skipped_defs loaded_defs other_content own_content split: option.splits)

text \<open>A source that delivers no document is skipped, whatever the others do.\<close>

lemma seq_parts:
  "fst (seq f g p) = (case fst (f p) of None \<Rightarrow> fst (g (snd (f p))) | Some e \<Rightarrow> Some e)"
  "snd (seq f g p) = (case fst (f p) of None \<Rightarrow> snd (g (snd (f p))) | Some e \<Rightarrow> snd (f p))"
  by (cases "f p"; simp add: seq_def split: option.splits)+

lemma loadAllData_parts:
  "loadAllData net p =
     (case fst (seq (loadModules net) (seq (loadThesis net) (seq (loadCourseworks net) (loadPractical net))) p) of
        None \<Rightarrow> snd (seq (loadModules net) (seq (loadThesis net) (seq (loadCourseworks net) (loadPractical net))) p)
      | Some e \<Rightarrow> (snd (seq (loadModules net) (seq (loadThesis net) (seq (loadCourseworks net) (loadPractical net))) p))
          \<lparr>console := console (snd (seq (loadModules net) (seq (loadThesis net) (seq (loadCourseworks net) (loadPractical net))) p)) @ [e]\<rparr>)"
  by (cases "seq (loadModules net) (seq (loadThesis net) (seq (loadCourseworks net) (loadPractical net))) p")
     (simp add: loadAllData_def split: option.splits)

lemma content_of_console [simp]: "content_of s (q\<lparr>console := c\<rparr>) = content_of s q"
  by (simp add: content_of_def getElementById_def)

lemma undelivered_modules:
  assumes "refused (modulesResponse net) \<or> modulesResponse net = Rejected"
  shows "educationModules (snd (loadModules net q)) = educationModules q"
    and "content_of ''educationModules'' (snd (loadModules net q)) = content_of ''educationModules'' q"
  using assms
  by (auto simp: loadModules_def Let_def refused_def content_of_fetch split: response.splits if_splits)

lemma undelivered_thesis:
  assumes "refused (thesisResponse net) \<or> thesisResponse net = Rejected"
  shows "thesisData (snd (loadThesis net q)) = thesisData q"
    and "content_of ''thesisContent'' (snd (loadThesis net q)) = content_of ''thesisContent'' q"
  using assms
  by (auto simp: loadThesis_def Let_def refused_def content_of_fetch split: response.splits if_splits)

lemma undelivered_courseworks:
  assumes "refused (courseworksResponse net) \<or> courseworksResponse net = Rejected"
  shows "courseworks (snd (loadCourseworks net q)) = courseworks q"
    and "content_of ''courseworksList'' (snd (loadCourseworks net q)) = content_of ''courseworksList'' q"
  using assms
  by (auto simp: loadCourseworks_def Let_def refused_def content_of_fetch split: response.splits if_splits)

lemma undelivered_practical:
  assumes "refused (practicalResponse net) \<or> practicalResponse net = Rejected"
  shows "practicalWorks (snd (loadPractical net q)) = practicalWorks q"
    and "content_of ''practicalsList'' (snd (loadPractical net q)) = content_of ''practicalsList'' q"
  using assms
  by (auto simp: loadPractical_def Let_def refused_def content_of_fetch split: response.splits if_splits)

lemma undelivered_skipped:
  "refused (modulesResponse net) \<or> modulesResponse net = Rejected
     \<Longrightarrow> modules_skipped p (loadAllData net p)"
  "refused (thesisResponse net) \<or> thesisResponse net = Rejected
     \<Longrightarrow> thesis_skipped p (loadAllData net p)"
  "refused (courseworksResponse net) \<or> courseworksResponse net = Rejected
     \<Longrightarrow> courseworks_skipped p (loadAllData net p)"
  "refused (practicalResponse net) \<or> practicalResponse net = Rejected
     \<Longrightarrow> practicals_skipped p (loadAllData net p)"
  by (simp_all add: skipped_defs loadAllData_parts seq_parts undelivered_modules undelivered_thesis
      undelivered_courseworks undelivered_practical split: option.splits)





section \<open>The counter animation\<close>

lemma ceiling_step: "real_of_int \<lceil>real k + 2 / 5\<rceil> = 1 + real k"
proof -
  have "\<lceil>real k + 2 / 5\<rceil> = int k + 1"
    by (simp add: ceiling_eq_iff)
  then show ?thesis by simp
qed

lemma counting_fields [simp]:
  "timers (counting i v ts p) = ts"
  "observed (counting i v ts p) = removeAll i (observed p)"
  "length (elements (counting i v ts p)) = length (elements p)"
  by (simp_all add: counting_def)

lemma counting_displayed [simp]:
  "i < length (elements p) \<Longrightarrow> displayed i (counting i v ts p) = Some v"
  by (simp add: counting_def displayed_def)

lemma updateCount_counting_step:
  assumes "i < length (elements p)" and "k < 80"
  shows "updateCount i (Some 80) (counting i (real k) [] p) = counting i (real (Suc k)) [(i, Some 80)] p"
  using assms
  by (simp add: updateCount_def counting_def modify_def js_less_def js_div_def js_add_def
      js_ceil_def speed_def Let_def ceiling_step add.commute)

lemma updateCount_counting_stop:
  assumes "i < length (elements p)"
  shows "updateCount i (Some 80) (counting i 80 [] p) = counting i 80 [] p"
  using assms
  by (simp add: updateCount_def counting_def modify_def js_less_def js_div_def Let_def)

lemma counting_drop_timer: "(counting i v ts p)\<lparr>timers := ts'\<rparr> = counting i v ts' p"
  by (simp add: counting_def)

lemma fireTimer_counting_step:
  assumes "i < length (elements p)" and "k < 80"
  shows "fireTimer (counting i (real k) [(i, Some 80)] p) = counting i (real (Suc k)) [(i, Some 80)] p"
  using updateCount_counting_step [OF assms]
  by (simp add: fireTimer_def counting_drop_timer)

lemma fireTimer_counting_stop:
  assumes "i < length (elements p)"
  shows "fireTimer (counting i 80 [(i, Some 80)] p) = counting i 80 [] p"
  using updateCount_counting_stop [OF assms]
  by (simp add: fireTimer_def counting_drop_timer)

lemma fireTimer_idle: "timers p = [] \<Longrightarrow> fireTimer p = p"
  by (simp add: fireTimer_def)

lemma funpow_counting:
  assumes "i < length (elements p)"
  shows "k < 80 \<Longrightarrow>
    (fireTimer ^^ k) (counting i 1 [(i, Some 80)] p) = counting i (real (Suc k)) [(i, Some 80)] p"
proof (induction k)
  case 0
  show ?case by simp
next
  case (Suc k)
  then have "(fireTimer ^^ k) (counting i 1 [(i, Some 80)] p) = counting i (real (Suc k)) [(i, Some 80)] p"
    by simp
  moreover have "Suc k < 80" using Suc.prems by simp
  ultimately show ?case
    using fireTimer_counting_step [OF assms, of "Suc k"] by simp
qed

lemma funpow_counting_end:
  assumes "i < length (elements p)"
  shows "(fireTimer ^^ (80 + n)) (counting i 1 [(i, Some 80)] p) = counting i 80 [] p"
proof (induction n)
  case 0
  have "(fireTimer ^^ 79) (counting i 1 [(i, Some 80)] p) = counting i (real (Suc 79)) [(i, Some 80)] p"
    by (rule funpow_counting [OF assms]) simp
  then have "fireTimer ((fireTimer ^^ 79) (counting i 1 [(i, Some 80)] p)) = counting i 80 [] p"
    using fireTimer_counting_stop [OF assms] by simp
  moreover have "(80::nat) = Suc 79" by simp
  ultimately show ?case by (simp only: funpow.simps o_apply add_0_right)
next
  case (Suc n)
  have "(fireTimer ^^ (80 + Suc n)) (counting i 1 [(i, Some 80)] p)
      = fireTimer ((fireTimer ^^ (80 + n)) (counting i 1 [(i, Some 80)] p))"
    by (simp only: add_Suc_right funpow.simps o_apply)
  then show ?case using Suc.IH by (simp add: fireTimer_idle)
qed

lemma runTimers_counting:
  assumes "i < length (elements p)"
  shows "k \<le> 80 \<Longrightarrow> runTimers (counting i (real (80 - k)) [(i, Some 80)] p) = Some (counting i 80 [] p)"
proof (induction k)
  case 0
  have "runTimers (counting i 80 [] p) = Some (counting i 80 [] p)"
    by (subst runTimers.simps) simp
  then show ?case
    using fireTimer_counting_stop [OF assms]
    by (subst runTimers.simps) simp
next
  case (Suc k)
  then have "80 - Suc k < 80" and "Suc (80 - Suc k) = 80 - k" and "k \<le> 80"
    by simp_all
  then show ?case
    using fireTimer_counting_step [OF assms, of "80 - Suc k"] Suc.IH
    by (subst runTimers.simps) simp
qed

lemma trigger_counting:
  assumes "i < length (elements p)" and "dataCount (elements p ! i) = Some 80"
    and "innerText (elements p ! i) = Some 0" and "timers p = []" and "i \<in> set (observed p)"
  shows "deliverIntersections [(i, True)] p = counting i 1 [(i, Some 80)] p"
  using assms
  by (simp add: deliverIntersections_def counterCallback_def counterEntry_def animateCounter_def
      unobserve_def updateCount_def counting_def modify_def js_less_def js_div_def js_add_def
      js_ceil_def speed_def Let_def ceiling_eq_iff)


text \<open>Entries for other targets leave a counter, its timers and its observation alone.\<close>

lemma updateCount_other:
  assumes "t \<noteq> i"
  shows "elements (updateCount t target q) ! i = elements q ! i"
    and "filter (\<lambda>x. fst x = i) (timers (updateCount t target q)) = filter (\<lambda>x. fst x = i) (timers q)"
    and "observed (updateCount t target q) = observed q"
  using assms by (simp_all add: updateCount_def Let_def modify_def)

lemma counterEntry_other:
  assumes "fst entry \<noteq> i" and "i \<notin> set (observed q)"
  shows "elements (counterEntry entry q) ! i = elements q ! i"
    and "filter (\<lambda>x. fst x = i) (timers (counterEntry entry q)) = filter (\<lambda>x. fst x = i) (timers q)"
    and "i \<notin> set (observed (counterEntry entry q))"
  using assms updateCount_other [of "fst entry" i]
  by (cases entry; simp add: counterEntry_def unobserve_def animateCounter_def)+

lemma counterCallback_other:
  assumes "list_all (\<lambda>entry. fst entry \<noteq> i) entries" and "i \<notin> set (observed q)"
  shows "elements (counterCallback entries q) ! i = elements q ! i
    \<and> filter (\<lambda>x. fst x = i) (timers (counterCallback entries q)) = filter (\<lambda>x. fst x = i) (timers q)
    \<and> i \<notin> set (observed (counterCallback entries q))"
  using assms
proof (induction entries arbitrary: q)
  case Nil
  then show ?case by (simp add: counterCallback_def)
next
  case (Cons entry entries)
  then have e: "fst entry \<noteq> i" and es: "list_all (\<lambda>entry. fst entry \<noteq> i) entries"
    by simp_all
  note step = counterEntry_other [OF e Cons.prems(2)]
  have "counterCallback (entry # entries) q = counterCallback entries (counterEntry entry q)"
    by (simp add: counterCallback_def)
  then show ?case
    using Cons.IH [OF es step(3)] step(1,2) by simp
qed

lemma unobserved_stays:
  assumes "i \<notin> set (observed q)"
  shows "elements (deliverIntersections entries q) ! i = elements q ! i
    \<and> filter (\<lambda>x. fst x = i) (timers (deliverIntersections entries q)) = filter (\<lambda>x. fst x = i) (timers q)
    \<and> i \<notin> set (observed (deliverIntersections entries q))"
proof -
  have "list_all (\<lambda>entry. fst entry \<noteq> i) (filter (\<lambda>entry. fst entry \<in> set (observed q)) entries)"
    using assms by (auto simp: list_all_iff)
  then show ?thesis
    unfolding deliverIntersections_def by (rule counterCallback_other) (rule assms)
qed

text \<open>The counter among other counters and timers.\<close>

lemma shown_real: "displayed i p = Some (real n) \<Longrightarrow> shown i p = n"
  by (simp add: shown_def)

text \<open>One call of updateCount for the counter itself.\<close>

lemma updateCount_own_step:
  assumes "i < length (elements q)" and "displayed i q = Some (real n)" and "n < 80"
  shows "displayed i (updateCount i (Some 80) q) = Some (real (Suc n))"
    and "timers (updateCount i (Some 80) q) = timers q @ [(i, Some 80)]"
    and "observed (updateCount i (Some 80) q) = observed q"
    and "length (elements (updateCount i (Some 80) q)) = length (elements q)"
    and "dataCount (elements (updateCount i (Some 80) q) ! i) = dataCount (elements q ! i)"
  using assms
  by (simp_all add: updateCount_def displayed_def js_less_def js_div_def js_add_def
      js_ceil_def speed_def Let_def ceiling_step add.commute)

lemma updateCount_own_stop:
  assumes "i < length (elements q)" and "displayed i q = Some 80"
  shows "displayed i (updateCount i (Some 80) q) = Some 80"
    and "timers (updateCount i (Some 80) q) = timers q"
    and "observed (updateCount i (Some 80) q) = observed q"
    and "length (elements (updateCount i (Some 80) q)) = length (elements q)"
    and "dataCount (elements (updateCount i (Some 80) q) ! i) = dataCount (elements q ! i)"
  using assms
  by (simp_all add: updateCount_def displayed_def js_less_def js_div_def Let_def)

lemma updateCount_length [simp]:
  "length (elements (updateCount t target q)) = length (elements q)"
  by (simp add: updateCount_def Let_def)

lemma updateCount_observed [simp]:
  "observed (updateCount t target q) = observed q"
  by (simp add: updateCount_def Let_def)

lemma updateCount_foreign:
  assumes "t \<noteq> i"
  shows "elements (updateCount t target q) ! i = elements q ! i"
    and "own_timers i (updateCount t target q) = own_timers i q"
  using assms by (simp_all add: updateCount_def Let_def own_timers_def)

lemma unobserve_simps [simp]:
  "elements (unobserve t q) = elements q"
  "timers (unobserve t q) = timers q"
  "observed (unobserve t q) = removeAll t (observed q)"
  by (simp_all add: unobserve_def)

lemma displayed_unobserve [simp]: "displayed i (unobserve t q) = displayed i q"
  by (simp add: displayed_def)

lemma own_timers_unobserve [simp]: "own_timers i (unobserve t q) = own_timers i q"
  by (simp add: own_timers_def)

lemma counterEntry_length [simp]:
  "length (elements (counterEntry e q)) = length (elements q)"
  by (cases e) (simp add: counterEntry_def animateCounter_def)

lemma counterEntry_observed:
  "observed (counterEntry e q) = (if snd e then removeAll (fst e) (observed q) else observed q)"
  by (cases e) (simp add: counterEntry_def animateCounter_def)

lemma counterCallback_length [simp]:
  "length (elements (counterCallback es q)) = length (elements q)"
  unfolding counterCallback_def by (induction es arbitrary: q) simp_all

lemma deliverIntersections_length [simp]:
  "length (elements (deliverIntersections es q)) = length (elements q)"
  by (simp add: deliverIntersections_def)

lemma counterCallback_unobserves:
  "(i, True) \<in> set es \<or> i \<notin> set (observed q) \<Longrightarrow> i \<notin> set (observed (counterCallback es q))"
  unfolding counterCallback_def
proof (induction es arbitrary: q)
  case Nil
  then show ?case by simp
next
  case (Cons e es)
  have "(i, True) \<in> set es \<or> i \<notin> set (observed (counterEntry e q))"
    using Cons.prems by (cases e) (auto simp: counterEntry_observed)
  from Cons.IH [OF this] show ?case by simp
qed

text \<open>What one entry of the callback does to the counter.\<close>

lemma counterEntry_started:
  assumes "started i j q"
  shows "started i (j + (if e = (i, True) then 1 else 0)) (counterEntry e q)"
proof -
  obtain t b where e: "e = (t, b)" by (cases e)
  from assms have len: "i < length (elements q)" and dc: "dataCount (elements q ! i) = Some 80"
    and d: "displayed i q = Some (real (min j 80))"
    and o: "own_timers i q = replicate (min j 80) (i, Some 80)"
    by (simp_all add: started_def)
  show ?thesis
  proof (cases "t = i")
    case False
    with assms e updateCount_foreign [OF False, of "dataCount (elements q ! t)" q] show ?thesis
      by (simp add: started_def counterEntry_def animateCounter_def displayed_def)
  next
    case True
    show ?thesis
    proof (cases b)
      case False
      with assms e True show ?thesis by (simp add: counterEntry_def)
    next
      case b: True
      show ?thesis
      proof (cases "j < 80")
        case less: True
        then have m: "min j 80 = j" "min (Suc j) 80 = Suc j" by simp_all
        from d m have d': "displayed i q = Some (real j)" by simp
        note u = updateCount_own_step [OF len d' less]
        have "own_timers i (updateCount i (Some 80) q) = replicate (Suc j) (i, Some 80)"
          using o m u(2) by (simp add: own_timers_def replicate_append_same)
        with u len dc e True b m show ?thesis
          by (simp add: started_def counterEntry_def animateCounter_def)
      next
        case False
        then have m: "min j 80 = 80" "min (Suc j) 80 = 80" by simp_all
        from d m have d': "displayed i q = Some 80" by simp
        note u = updateCount_own_stop [OF len d']
        have "own_timers i (updateCount i (Some 80) q) = replicate 80 (i, Some 80)"
          using o m u(2) by (simp add: own_timers_def)
        with u len dc e True b m show ?thesis
          by (simp add: started_def counterEntry_def animateCounter_def)
      qed
    qed
  qed
qed

lemma counterCallback_started:
  "started i j q \<Longrightarrow> started i (j + count_list es (i, True)) (counterCallback es q)"
  unfolding counterCallback_def
proof (induction es arbitrary: j q)
  case Nil
  then show ?case by simp
next
  case (Cons e es)
  have "j + (if e = (i, True) then 1 else 0) + count_list es (i, True)
      = j + count_list (e # es) (i, True)"
    by simp
  with Cons.IH [OF counterEntry_started [OF Cons.prems, of e]] show ?case
    by (simp only: fold_simps o_apply)
qed

lemma count_list_observed:
  "i \<in> obs \<Longrightarrow> count_list (filter (\<lambda>entry. fst entry \<in> obs) es) (i, b) = count_list es (i, b)"
  by (induction es) auto

lemma count_list_member: "x \<in> set xs \<Longrightarrow> 0 < count_list xs x"
  by (induction xs) auto

lemma deliver_started:
  assumes "started i 0 p" and "i \<in> set (observed p)"
  shows "started i (count_list entries (i, True)) (deliverIntersections entries p)"
  using counterCallback_started [OF assms(1), of "filter (\<lambda>entry. fst entry \<in> set (observed p)) entries"]
    count_list_observed [of i "set (observed p)" entries True] assms(2)
  by (simp add: deliverIntersections_def)

lemma deliver_unobserves:
  assumes "(i, True) \<in> set entries" and "i \<in> set (observed p)"
  shows "i \<notin> set (observed (deliverIntersections entries p))"
  unfolding deliverIntersections_def
  by (rule counterCallback_unobserves) (use assms in auto)

lemma started_animating:
  assumes "started i j q" and "0 < j" and "i \<notin> set (observed q)"
  shows "animating i q"
proof -
  from assms(1) have "displayed i q = Some (real (min j 80))"
    by (simp add: started_def)
  then have "shown i q = min j 80"
    by (rule shown_real)
  with assms show ?thesis
    by (simp add: started_def animating_def list_all_iff)
qed

lemma animating_shown: "animating i q \<Longrightarrow> displayed i q = Some (real (shown i q))"
  by (simp add: animating_def)

text \<open>A timer of the counter fires.\<close>

lemma fire_own:
  assumes "animating i q" and "timers q = (i, tg) # rest"
  shows "animating i (fireTimer q)"
    and "shown i q < 80 \<Longrightarrow> shown i (fireTimer q) = Suc (shown i q)"
    and "shown i q < 80 \<Longrightarrow> length (own_timers i (fireTimer q)) = length (own_timers i q)"
    and "\<not> shown i q < 80 \<Longrightarrow> shown i (fireTimer q) = shown i q"
    and "\<not> shown i q < 80 \<Longrightarrow> Suc (length (own_timers i (fireTimer q))) = length (own_timers i q)"
proof -
  let ?q = "q\<lparr>timers := rest\<rparr>"
  from assms have len: "i < length (elements ?q)" and dc: "dataCount (elements q ! i) = Some 80"
    and obs: "i \<notin> set (observed q)"
    and d: "displayed i ?q = Some (real (shown i q))" and lo: "1 \<le> shown i q" and hi: "shown i q \<le> 80"
    and all: "list_all (\<lambda>x. snd x = Some 80) (own_timers i q)"
    by (simp_all add: animating_def displayed_def)
  from assms(2) all have tg: "tg = Some 80"
    by (simp add: own_timers_def)
  have own: "own_timers i q = (i, Some 80) # filter (\<lambda>x. fst x = i) rest"
    using assms(2) tg by (simp add: own_timers_def)
  have f: "fireTimer q = updateCount i (Some 80) ?q"
    using assms(2) tg by (simp add: fireTimer_def)
  have "animating i (fireTimer q)
      \<and> (shown i q < 80 \<longrightarrow> shown i (fireTimer q) = Suc (shown i q)
            \<and> length (own_timers i (fireTimer q)) = length (own_timers i q))
      \<and> (\<not> shown i q < 80 \<longrightarrow> shown i (fireTimer q) = shown i q
            \<and> Suc (length (own_timers i (fireTimer q))) = length (own_timers i q))"
  proof (cases "shown i q < 80")
    case True
    note u = updateCount_own_step [OF len d True]
    from u(1) have s: "shown i (fireTimer q) = Suc (shown i q)"
      unfolding f by (rule shown_real)
    have o: "own_timers i (fireTimer q) = filter (\<lambda>x. fst x = i) rest @ [(i, Some 80)]"
      unfolding f by (simp add: own_timers_def u(2))
    have "animating i (fireTimer q)"
      unfolding animating_def
      using u len dc obs True all own o s
      by (simp add: f [symmetric])
    with s o own True show ?thesis by simp
  next
    case False
    with hi have e: "shown i q = 80" by simp
    with d have d': "displayed i ?q = Some 80" by simp
    note u = updateCount_own_stop [OF len d']
    from u(1) have "displayed i (fireTimer q) = Some (real 80)"
      unfolding f by simp
    then have s: "shown i (fireTimer q) = 80"
      by (rule shown_real)
    have o: "own_timers i (fireTimer q) = filter (\<lambda>x. fst x = i) rest"
      unfolding f by (simp add: own_timers_def u(2))
    have "animating i (fireTimer q)"
      unfolding animating_def
      using u len dc obs all own o s
      by (simp add: f [symmetric])
    with s o own e False show ?thesis by simp
  qed
  then show "animating i (fireTimer q)"
    and "shown i q < 80 \<Longrightarrow> shown i (fireTimer q) = Suc (shown i q)"
    and "shown i q < 80 \<Longrightarrow> length (own_timers i (fireTimer q)) = length (own_timers i q)"
    and "\<not> shown i q < 80 \<Longrightarrow> shown i (fireTimer q) = shown i q"
    and "\<not> shown i q < 80 \<Longrightarrow> Suc (length (own_timers i (fireTimer q))) = length (own_timers i q)"
    by simp_all
qed

text \<open>A timer of another counter fires, or none is pending.\<close>

lemma fire_foreign:
  assumes "timers q = (t, tg) # rest" and "t \<noteq> i"
  shows "elements (fireTimer q) ! i = elements q ! i"
    and "own_timers i (fireTimer q) = own_timers i q"
    and "observed (fireTimer q) = observed q"
    and "length (elements (fireTimer q)) = length (elements q)"
    and "timers (fireTimer q) = rest \<or> timers (fireTimer q) = rest @ [(t, tg)]"
proof -
  have f: "fireTimer q = updateCount t tg (q\<lparr>timers := rest\<rparr>)"
    using assms(1) by (simp add: fireTimer_def)
  show "elements (fireTimer q) ! i = elements q ! i"
    unfolding f using updateCount_foreign(1) [OF assms(2)] by simp
  show "own_timers i (fireTimer q) = own_timers i q"
    unfolding f using updateCount_foreign(2) [OF assms(2), of tg "q\<lparr>timers := rest\<rparr>"] assms
    by (simp add: own_timers_def)
  show "observed (fireTimer q) = observed q"
    unfolding f by simp
  show "length (elements (fireTimer q)) = length (elements q)"
    unfolding f by simp
  show "timers (fireTimer q) = rest \<or> timers (fireTimer q) = rest @ [(t, tg)]"
    unfolding f by (simp add: updateCount_def Let_def)
qed

lemma same_counter:
  assumes "elements q' ! i = elements q ! i" and "own_timers i q' = own_timers i q"
    and "length (elements q') = length (elements q)"
    and "i \<notin> set (observed q')" and "animating i q"
  shows "animating i q'" and "shown i q' = shown i q" and "displayed i q' = displayed i q"
  using assms by (simp_all add: animating_def shown_def displayed_def)

lemma fire_other:
  assumes "animating i q" and "timers q = [] \<or> fst (hd (timers q)) \<noteq> i"
  shows "animating i (fireTimer q)" and "shown i (fireTimer q) = shown i q"
    and "displayed i (fireTimer q) = displayed i q"
    and "own_timers i (fireTimer q) = own_timers i q"
proof -
  have "animating i (fireTimer q) \<and> shown i (fireTimer q) = shown i q
      \<and> displayed i (fireTimer q) = displayed i q \<and> own_timers i (fireTimer q) = own_timers i q"
  proof (cases "timers q")
    case Nil
    with assms(1) show ?thesis by (simp add: fireTimer_idle)
  next
    case (Cons x rest)
    obtain t tg where x: "x = (t, tg)" by (cases x)
    with Cons assms(2) have t: "t \<noteq> i" by simp
    note f = fire_foreign [OF Cons [unfolded x] t]
    from assms(1) have "i \<notin> set (observed (fireTimer q))"
      by (simp add: f(3) animating_def)
    from same_counter [OF f(1,2,4) this assms(1)] f(2) show ?thesis by simp
  qed
  then show "animating i (fireTimer q)" and "shown i (fireTimer q) = shown i q"
    and "displayed i (fireTimer q) = displayed i q"
    and "own_timers i (fireTimer q) = own_timers i q"
    by simp_all
qed

lemma fire_animating: "animating i q \<Longrightarrow> animating i (fireTimer q)"
proof (cases "timers q = [] \<or> fst (hd (timers q)) \<noteq> i")
  case True
  assume "animating i q"
  then show ?thesis using True by (rule fire_other(1))
next
  case False
  assume a: "animating i q"
  from False obtain tg rest where "timers q = (i, tg) # rest"
    by (cases "timers q") auto
  with a show ?thesis by (rule fire_own(1))
qed

text \<open>Intersections are reported.\<close>

lemma deliver_other:
  assumes "animating i q"
  shows "animating i (deliverIntersections es q)"
    and "shown i (deliverIntersections es q) = shown i q"
    and "displayed i (deliverIntersections es q) = displayed i q"
    and "own_timers i (deliverIntersections es q) = own_timers i q"
proof -
  from assms have o: "i \<notin> set (observed q)" by (simp add: animating_def)
  from unobserved_stays [OF o, of es]
  have e: "elements (deliverIntersections es q) ! i = elements q ! i"
    and t: "own_timers i (deliverIntersections es q) = own_timers i q"
    and o': "i \<notin> set (observed (deliverIntersections es q))"
    by (simp_all add: own_timers_def)
  have l: "length (elements (deliverIntersections es q)) = length (elements q)"
    by simp
  from same_counter [OF e t l o' assms] t
  show "animating i (deliverIntersections es q)"
    and "shown i (deliverIntersections es q) = shown i q"
    and "displayed i (deliverIntersections es q) = displayed i q"
    and "own_timers i (deliverIntersections es q) = own_timers i q"
    by simp_all
qed

lemma happen_animating: "animating i q \<Longrightarrow> animating i (happen h q)"
  by (cases h) (simp_all add: fire_animating deliver_other(1))

lemma history_animating: "animating i q \<Longrightarrow> animating i (history hs q)"
  unfolding history_def by (induction hs arbitrary: q) (simp_all add: happen_animating)

text \<open>
  Timers fire in the order they were queued, and a timer that queues itself again goes
  to the end of the queue: however many timers of other counters are pending, the next
  timer of the counter comes to fire, and when it does the counter is one step nearer to
  its end.
\<close>

lemma next_own_timer:
  assumes "length (takeWhile (\<lambda>x. fst x \<noteq> i) (timers q)) = n"
    and "animating i q" and "own_timers i q \<noteq> []"
  shows "\<exists>N. animating i ((fireTimer ^^ N) q)
     \<and> (80 - shown i ((fireTimer ^^ N) q)) + length (own_timers i ((fireTimer ^^ N) q))
         < (80 - shown i q) + length (own_timers i q)"
  using assms
proof (induction n arbitrary: q)
  case 0
  from "0.prems"(3) obtain x rest where t: "timers q = x # rest"
    by (cases "timers q") (auto simp: own_timers_def)
  with "0.prems"(1) have "fst x = i" by (auto split: if_splits)
  then obtain tg where x: "x = (i, tg)" by (cases x) auto
  note f = fire_own [OF "0.prems"(2) t [unfolded x]]
  from "0.prems"(2) have "shown i q \<le> 80" by (simp add: animating_def)
  then have "(80 - shown i (fireTimer q)) + length (own_timers i (fireTimer q))
      < (80 - shown i q) + length (own_timers i q)"
    using f(2-5) by (cases "shown i q < 80") auto
  with f(1) have "animating i ((fireTimer ^^ 1) q)
     \<and> (80 - shown i ((fireTimer ^^ 1) q)) + length (own_timers i ((fireTimer ^^ 1) q))
         < (80 - shown i q) + length (own_timers i q)"
    by simp
  then show ?case by (rule exI)
next
  case (Suc n)
  from Suc.prems(1) obtain x rest where t: "timers q = x # rest"
    by (cases "timers q") auto
  with Suc.prems(1) have x: "fst x \<noteq> i" and n: "length (takeWhile (\<lambda>x. fst x \<noteq> i) rest) = n"
    by (auto split: if_splits)
  obtain u tg where xu: "x = (u, tg)" by (cases x)
  with x have u: "u \<noteq> i" by simp
  have h: "timers q = [] \<or> fst (hd (timers q)) \<noteq> i"
    using t x by simp
  note o = fire_other [OF Suc.prems(2) h]
  note f = fire_foreign [OF t [unfolded xu] u]
  from Suc.prems(3) t x have "\<exists>y\<in>set rest. \<not> fst y \<noteq> i"
    by (auto simp: own_timers_def filter_empty_conv)
  then have "takeWhile (\<lambda>x. fst x \<noteq> i) (rest @ [(u, tg)]) = takeWhile (\<lambda>x. fst x \<noteq> i) rest"
    by (auto simp: takeWhile_append1)
  with f(5) n have "length (takeWhile (\<lambda>x. fst x \<noteq> i) (timers (fireTimer q))) = n"
    by auto
  from Suc.IH [OF this o(1)] Suc.prems(3) o(4)
  obtain N where N: "animating i ((fireTimer ^^ N) (fireTimer q))"
     "(80 - shown i ((fireTimer ^^ N) (fireTimer q))) + length (own_timers i ((fireTimer ^^ N) (fireTimer q)))
         < (80 - shown i (fireTimer q)) + length (own_timers i (fireTimer q))"
    by auto
  have "(fireTimer ^^ Suc N) q = (fireTimer ^^ N) (fireTimer q)"
    by (simp add: funpow_swap1)
  with N o(2,4) have "animating i ((fireTimer ^^ Suc N) q)
     \<and> (80 - shown i ((fireTimer ^^ Suc N) q)) + length (own_timers i ((fireTimer ^^ Suc N) q))
         < (80 - shown i q) + length (own_timers i q)"
    by simp
  then show ?case by (rule exI)
qed

lemma animation_ends:
  assumes "animating i q"
  shows "\<exists>N. animating i ((fireTimer ^^ N) q) \<and> own_timers i ((fireTimer ^^ N) q) = []"
  using assms
proof (induction "(80 - shown i q) + length (own_timers i q)" arbitrary: q rule: less_induct)
  case less
  show ?case
  proof (cases "own_timers i q = []")
    case True
    with less.prems have "animating i ((fireTimer ^^ 0) q) \<and> own_timers i ((fireTimer ^^ 0) q) = []"
      by simp
    then show ?thesis by (rule exI)
  next
    case False
    from next_own_timer [OF refl less.prems False]
    obtain N where N: "animating i ((fireTimer ^^ N) q)"
      "(80 - shown i ((fireTimer ^^ N) q)) + length (own_timers i ((fireTimer ^^ N) q))
         < (80 - shown i q) + length (own_timers i q)"
      by auto
    from less.hyps [OF N(2) N(1)]
    obtain M where "animating i ((fireTimer ^^ M) ((fireTimer ^^ N) q))
       \<and> own_timers i ((fireTimer ^^ M) ((fireTimer ^^ N) q)) = []"
      by auto
    then have "animating i ((fireTimer ^^ (M + N)) q) \<and> own_timers i ((fireTimer ^^ (M + N)) q) = []"
      by (simp add: funpow_add)
    then show ?thesis by (rule exI)
  qed
qed

lemma animating_done:
  assumes "animating i q" and "own_timers i q = []"
  shows "displayed i q = Some 80"
  using assms by (auto simp: animating_def)


lemma sample_counter:
  "11 < length (elements (initCounters sample_page))"
  "dataCount (elements (initCounters sample_page) ! 11) = Some 80"
  "innerText (elements (initCounters sample_page) ! 11) = Some 0"
  "own_timers 11 (initCounters sample_page) = []"
  "11 \<in> set (observed (initCounters sample_page))"
  "timers (initCounters sample_page) = []"
  by (simp_all add: initCounters_def querySelectorAll_class_def hasClass_def sample_page_def
      fresh_page_def sample_elements_def blank_def own_timers_def)




section \<open>The active navigation link\<close>

lemma fold_modify_elements:
  assumes "distinct ls"
  shows "length (elements (fold (\<lambda>l. modify l g) ls q)) = length (elements q)
    \<and> (\<forall>j < length (elements q). elements (fold (\<lambda>l. modify l g) ls q) ! j
          = (if j \<in> set ls then g (elements q ! j) else elements q ! j))"
  using assms
proof (induction ls arbitrary: q)
  case Nil
  show ?case by simp
next
  case (Cons l ls)
  then have d: "distinct ls" and l: "l \<notin> set ls" by simp_all
  note ih = Cons.IH [OF d, of "modify l g q"]
  show ?case
  proof (intro conjI allI impI)
    show "length (elements (fold (\<lambda>l. modify l g) (l # ls) q)) = length (elements q)"
      using ih by simp
  next
    fix j assume j: "j < length (elements q)"
    then have "elements (fold (\<lambda>l. modify l g) ls (modify l g q)) ! j
          = (if j \<in> set ls then g (elements (modify l g q) ! j) else elements (modify l g q) ! j)"
      using ih by simp
    then show "elements (fold (\<lambda>l. modify l g) (l # ls) q) ! j
          = (if j \<in> set (l # ls) then g (elements q ! j) else elements q ! j)"
      using l j by (cases "j = l") (auto simp: nth_list_update)
  qed
qed

lemma clearActive_elements:
  "elements (clearActive q)
     = map (\<lambda>e. if hasClass ''nav-link'' e then classList_remove ''active'' e else e) (elements q)"
proof (rule nth_equalityI)
  show "length (elements (clearActive q))
      = length (map (\<lambda>e. if hasClass ''nav-link'' e then classList_remove ''active'' e else e) (elements q))"
    using fold_modify_elements [OF distinct_querySelectorAll_class, of "classList_remove ''active''" "''nav-link''" q q]
    by (simp add: clearActive_def)
next
  fix j assume "j < length (elements (clearActive q))"
  then have j: "j < length (elements q)"
    using fold_modify_elements [OF distinct_querySelectorAll_class, of "classList_remove ''active''" "''nav-link''" q q]
    by (simp add: clearActive_def)
  then show "elements (clearActive q) ! j
      = map (\<lambda>e. if hasClass ''nav-link'' e then classList_remove ''active'' e else e) (elements q) ! j"
    using fold_modify_elements [OF distinct_querySelectorAll_class, of "classList_remove ''active''" "''nav-link''" q q]
    by (simp add: clearActive_def querySelectorAll_class_def)
qed

lemma skeleton_remove [simp]: "skeleton (classList_remove ''active'' e) = skeleton e"
  by (simp add: skeleton_def classList_remove_def hasClass_def)

lemma skeleton_add [simp]: "skeleton (classList_add ''active'' e) = skeleton e"
  by (simp add: skeleton_def classList_add_def hasClass_def)

lemma skeleton_clearActive [simp]: "map skeleton (elements (clearActive q)) = map skeleton (elements q)"
  by (simp add: clearActive_elements comp_def if_distrib [of skeleton] cong: if_cong)

lemma skeleton_modify:
  "skeleton (f (elements q ! l)) = skeleton (elements q ! l) \<Longrightarrow>
   map skeleton (elements (modify l f q)) = map skeleton (elements q)"
  by (cases "l < length (elements q)")
    (simp_all add: map_update list_update_beyond list_update_same_conv)

lemma navLinkFor_skeleton:
  "navLinkFor sid q
     = find_index (\<lambda>k. snd (snd (snd (snd (snd k)))) \<and> fst (snd (snd k)) = Some (''#'' @ sid))
         (map skeleton (elements q))"
  by (simp add: navLinkFor_def find_index_map skeleton_def)

lemma skeleton_nth:
  "map skeleton (elements q) = map skeleton (elements p) \<Longrightarrow> j < length (elements p) \<Longrightarrow>
   skeleton (elements q ! j) = skeleton (elements p ! j)"
  by (metis length_map nth_map)


lemma hasClass_skeleton:
  "skeleton e = skeleton e' \<Longrightarrow> hasClass ''nav-link'' e = hasClass ''nav-link'' e'"
  by (simp add: skeleton_def)

lemma sectionStep_match_eq:
  assumes st: "map skeleton (elements q) = map skeleton (elements p)"
    and i: "i < length (elements p)" and sid: "elemId (elements p ! i) = Some sid"
    and band: "in_band y (elements p ! i)"
  shows "sectionStep y i q =
     (case navLinkFor sid p of
        None \<Rightarrow> clearActive q
      | Some l \<Rightarrow> modify l (classList_add ''active'') (clearActive q))"
proof -
  have "skeleton (elements q ! i) = skeleton (elements p ! i)"
    by (rule skeleton_nth [OF st i])
  then have "elemId (elements q ! i) = Some sid" and "in_band y (elements q ! i)"
    using sid band by (simp_all add: skeleton_def in_band_def)
  moreover have "navLinkFor sid q = navLinkFor sid p"
    by (simp only: navLinkFor_skeleton st)
  ultimately show ?thesis
    by (simp add: sectionStep_def Let_def in_band_def)
qed

lemma sectionStep_miss_eq:
  assumes st: "map skeleton (elements q) = map skeleton (elements p)"
    and i: "i < length (elements p)" and band: "\<not> in_band y (elements p ! i)"
  shows "sectionStep y i q = q"
proof -
  have "skeleton (elements q ! i) = skeleton (elements p ! i)"
    by (rule skeleton_nth [OF st i])
  then have "\<not> in_band y (elements q ! i)"
    using band by (simp add: skeleton_def in_band_def)
  then show ?thesis
    by (auto simp: sectionStep_def Let_def in_band_def split: option.splits)
qed

lemma sectionStep_match:
  assumes st: "map skeleton (elements q) = map skeleton (elements p)"
    and i: "i < length (elements p)" and sid: "elemId (elements p ! i) = Some sid"
    and band: "in_band y (elements p ! i)"
  shows "map skeleton (elements (sectionStep y i q)) = map skeleton (elements p)"
    and "l < length (elements p) \<Longrightarrow> hasClass ''nav-link'' (elements p ! l) \<Longrightarrow>
         hasClass ''active'' (elements (sectionStep y i q) ! l) = (navLinkFor sid p = Some l)"
proof -
  note eq = sectionStep_match_eq [OF st i sid band]
  have len: "length (elements q) = length (elements p)"
    using st by (metis length_map)
  show "map skeleton (elements (sectionStep y i q)) = map skeleton (elements p)"
  proof (cases "navLinkFor sid p")
    case None
    then show ?thesis by (simp add: eq st)
  next
    case (Some l0)
    have "map skeleton (elements (modify l0 (classList_add ''active'') (clearActive q)))
        = map skeleton (elements (clearActive q))"
      by (rule skeleton_modify) simp
    then show ?thesis by (simp add: eq Some st)
  qed
  assume l: "l < length (elements p)" and nl: "hasClass ''nav-link'' (elements p ! l)"
  have nlq: "hasClass ''nav-link'' (elements q ! l)"
    using hasClass_skeleton [OF skeleton_nth [OF st l]] nl by simp
  have cleared: "elements (clearActive q) ! l = classList_remove ''active'' (elements q ! l)"
    using l len nlq by (simp add: clearActive_elements)
  show "hasClass ''active'' (elements (sectionStep y i q) ! l) = (navLinkFor sid p = Some l)"
  proof (cases "navLinkFor sid p")
    case None
    then show ?thesis by (simp add: eq cleared)
  next
    case (Some l0)
    have "length (elements (clearActive q)) = length (elements p)"
      using len by (simp add: clearActive_elements)
    then show ?thesis
      using l by (cases "l = l0") (simp_all add: eq Some cleared)
  qed
qed

lemma fold_sectionStep:
  assumes "list_all (\<lambda>i. i < length (elements p) \<and> elemId (elements p ! i) \<noteq> None) xs"
  shows "map skeleton (elements (fold (sectionStep y) xs p)) = map skeleton (elements p)
    \<and> (filter (\<lambda>i. in_band y (elements p ! i)) xs = [] \<longrightarrow> fold (sectionStep y) xs p = p)
    \<and> (filter (\<lambda>i. in_band y (elements p ! i)) xs \<noteq> [] \<longrightarrow>
         (\<forall>sid l. elemId (elements p ! last (filter (\<lambda>i. in_band y (elements p ! i)) xs)) = Some sid
            \<longrightarrow> l < length (elements p) \<longrightarrow> hasClass ''nav-link'' (elements p ! l)
            \<longrightarrow> hasClass ''active'' (elements (fold (sectionStep y) xs p) ! l)
                = (navLinkFor sid p = Some l)))"
  using assms
proof (induction xs rule: rev_induct)
  case Nil
  show ?case by simp
next
  case (snoc x xs)
  then have x: "x < length (elements p)" and xs: "list_all (\<lambda>i. i < length (elements p) \<and> elemId (elements p ! i) \<noteq> None) xs"
    by simp_all
  obtain xid where xid: "elemId (elements p ! x) = Some xid"
    using snoc.prems by auto
  note ih = snoc.IH [OF xs]
  let ?q = "fold (sectionStep y) xs p"
  have st: "map skeleton (elements ?q) = map skeleton (elements p)"
    using ih by simp
  show ?case
  proof (cases "in_band y (elements p ! x)")
    case True
    note m = sectionStep_match [OF st x xid True]
    show ?thesis
      using True m xid by simp
  next
    case False
    have "sectionStep y x ?q = ?q"
      by (rule sectionStep_miss_eq [OF st x False])
    then have f: "fold (sectionStep y) (xs @ [x]) p = ?q"
      by simp
    have g: "filter (\<lambda>i. in_band y (elements p ! i)) (xs @ [x]) = filter (\<lambda>i. in_band y (elements p ! i)) xs"
      using False by simp
    show ?thesis
      unfolding f g by (rule ih)
  qed
qed

lemma sections_with_id_ok:
  "list_all (\<lambda>i. i < length (elements p) \<and> elemId (elements p ! i) \<noteq> None) (sections_with_id p)"
  by (simp add: sections_with_id_def list_all_iff)

lemma filter_single: "l0 < n \<Longrightarrow> filter (\<lambda>l. l = l0) [0..<n] = [l0]"
  by (induction n) (auto simp: less_Suc_eq)


text \<open>
  Claim C7, amended. The band of a section is the one the code tests: offsets above
  \<^verbatim>\<open>offsetTop - 100\<close> up to and including \<^verbatim>\<open>offsetTop - 100 + offsetHeight\<close>. When the
  scroll offset lies in the band of some section, then after \<^verbatim>\<open>updateActiveNavLink\<close> a
  navigation link carries the active mark exactly when it is the first link whose
  \<^verbatim>\<open>href\<close> is \<^verbatim>\<open>#\<close> followed by the id of the last section, in document order, whose
  band contains the offset; so exactly one link is marked when that section has a link,
  and when the offset lies in exactly one band it is the link of that section. When the
  offset lies in no band, nothing changes.
\<close>

theorem active_link_is_last_match:
  assumes "matching = filter (\<lambda>i. in_band (scrollY p) (elements p ! i)) (sections_with_id p)"
    and "p' = updateActiveNavLink p"
  shows "(matching \<noteq> [] \<and> elemId (elements p ! last matching) = Some sid
          \<and> l < length (elements p) \<and> hasClass ''nav-link'' (elements p ! l) \<longrightarrow>
            hasClass ''active'' (elements p' ! l) = (navLinkFor sid p = Some l))
       \<and> (matching \<noteq> [] \<and> elemId (elements p ! last matching) = Some sid
          \<and> navLinkFor sid p = Some l0 \<longrightarrow>
            filter (\<lambda>l. hasClass ''active'' (elements p' ! l)) (querySelectorAll_class ''nav-link'' p') = [l0])
       \<and> (matching = [] \<longrightarrow> p' = p)"
proof -
  note f = fold_sectionStep [where p = p and y = "scrollY p" and xs = "sections_with_id p",
      OF sections_with_id_ok]
  have st: "map skeleton (elements p') = map skeleton (elements p)"
    using f by (simp add: assms(2) updateActiveNavLink_def)
  then have len: "length (elements p') = length (elements p)"
    by (metis length_map)
  have one: "hasClass ''active'' (elements p' ! l) = (navLinkFor sid p = Some l)"
    if "matching \<noteq> []" "elemId (elements p ! last matching) = Some sid"
      "l < length (elements p)" "hasClass ''nav-link'' (elements p ! l)" for l
    using f that by (simp add: assms updateActiveNavLink_def)
  have two: "filter (\<lambda>l. hasClass ''active'' (elements p' ! l)) (querySelectorAll_class ''nav-link'' p') = [l0]"
    if m: "matching \<noteq> []" "elemId (elements p ! last matching) = Some sid"
      and l0: "navLinkFor sid p = Some l0"
  proof -
    have b: "l0 < length (elements p)" and n: "hasClass ''nav-link'' (elements p ! l0)"
      using find_index_Some [of _ "elements p" l0] l0 by (auto simp: navLinkFor_def)
    have "(hasClass ''nav-link'' (elements p' ! l) \<and> hasClass ''active'' (elements p' ! l)) = (l = l0)"
      if "l \<in> set [0..<length (elements p)]" for l
    proof -
      have l: "l < length (elements p)" using that by simp
      have "hasClass ''nav-link'' (elements p' ! l) = hasClass ''nav-link'' (elements p ! l)"
        by (rule hasClass_skeleton [OF skeleton_nth [OF st l]])
      then show ?thesis
        using one [OF m l] n l0 by auto
    qed
    then have "filter (\<lambda>l. hasClass ''nav-link'' (elements p' ! l) \<and> hasClass ''active'' (elements p' ! l))
          [0..<length (elements p)] = filter (\<lambda>l. l = l0) [0..<length (elements p)]"
      by (rule filter_cong [OF refl])
    then show ?thesis
      using b by (simp add: querySelectorAll_class_def len filter_single conj_commute)
  qed
  have three: "matching = [] \<longrightarrow> p' = p"
    using f by (simp add: assms updateActiveNavLink_def)
  from one two three show ?thesis by blast
qed


lemma sample_sections:
  "sections_with_id (sample_page\<lparr>scrollY := y\<rparr>) = [5, 6]"
  "elemId (elements sample_page ! 6) = Some ''about''"
  "navLinkFor ''about'' (sample_page\<lparr>scrollY := y\<rparr>) = Some 4"
  "navLinkFor ''home'' (sample_page\<lparr>scrollY := y\<rparr>) = Some 3"
  "hasClass ''nav-link'' (elements sample_page ! 3)"
  "hasClass ''nav-link'' (elements sample_page ! 4)"
  "length (elements sample_page) = 15"
  by (simp_all add: sections_with_id_def navLinkFor_def hasClass_def sample_page_def fresh_page_def
      sample_elements_def blank_def)

lemma sample_bands:
  "in_band 450 (elements sample_page ! 5) = False"
  "in_band 450 (elements sample_page ! 6) = True"
  "in_band 2000 (elements sample_page ! 5) = False"
  "in_band 2000 (elements sample_page ! 6) = False"
  by (simp_all add: in_band_def sample_page_def fresh_page_def sample_elements_def blank_def)

theorem active_link_is_last_match_witness:
  "filter (\<lambda>i. in_band (scrollY (sample_page\<lparr>scrollY := 450\<rparr>)) (elements (sample_page\<lparr>scrollY := 450\<rparr>) ! i))
     (sections_with_id (sample_page\<lparr>scrollY := 450\<rparr>)) = [6]
   \<and> elemId (elements (sample_page\<lparr>scrollY := 450\<rparr>) ! 6) = Some ''about''
   \<and> navLinkFor ''about'' (sample_page\<lparr>scrollY := 450\<rparr>) = Some 4
   \<and> hasClass ''active'' (elements (updateActiveNavLink (sample_page\<lparr>scrollY := 450\<rparr>)) ! 4)
   \<and> \<not> hasClass ''active'' (elements (updateActiveNavLink (sample_page\<lparr>scrollY := 450\<rparr>)) ! 3)
   \<and> filter (\<lambda>l. hasClass ''active'' (elements (updateActiveNavLink (sample_page\<lparr>scrollY := 450\<rparr>)) ! l))
        (querySelectorAll_class ''nav-link'' (updateActiveNavLink (sample_page\<lparr>scrollY := 450\<rparr>))) = [4]
   \<and> filter (\<lambda>i. in_band (scrollY (sample_page\<lparr>scrollY := 2000\<rparr>)) (elements (sample_page\<lparr>scrollY := 2000\<rparr>) ! i))
     (sections_with_id (sample_page\<lparr>scrollY := 2000\<rparr>)) = []
   \<and> updateActiveNavLink (sample_page\<lparr>scrollY := 2000\<rparr>) = sample_page\<lparr>scrollY := 2000\<rparr>"
proof -
  let ?p = "sample_page\<lparr>scrollY := 450\<rparr>"
  let ?q = "sample_page\<lparr>scrollY := 2000\<rparr>"
  note t = active_link_is_last_match [OF refl refl, where p = ?p and sid = "''about''" and ?l0.0 = 4]
  have a: "hasClass ''active'' (elements (updateActiveNavLink ?p) ! 4)"
    using t [where l = 4] by (simp add: sample_bands sample_sections)
  have b: "\<not> hasClass ''active'' (elements (updateActiveNavLink ?p) ! 3)"
    using t [where l = 3] by (simp add: sample_bands sample_sections)
  have c: "filter (\<lambda>l. hasClass ''active'' (elements (updateActiveNavLink ?p) ! l))
        (querySelectorAll_class ''nav-link'' (updateActiveNavLink ?p)) = [4]"
    using t [where l = 4] by (simp add: sample_bands sample_sections)
  have d: "updateActiveNavLink ?q = ?q"
    using active_link_is_last_match [OF refl refl, where p = ?q and l = 0 and sid = "[]" and ?l0.0 = 0]
    by (simp add: sample_bands sample_sections)
  show ?thesis
    using a b c d by (simp add: sample_bands sample_sections)
qed

text \<open>
  On the sample page the bands \<open>[0, 500)\<close> of the first section and \<open>[500, 1000)\<close> of
  the second are disjoint, and the offset 450 lies in the first only. After
  \<^verbatim>\<open>updateActiveNavLink\<close> the link of the first section is not marked, and the link of
  the second is.
\<close>

theorem active_link_counterexample:
  "sections_with_id (sample_page\<lparr>scrollY := 450\<rparr>) = [5, 6]
   \<and> spec_band 450 (elements (sample_page\<lparr>scrollY := 450\<rparr>) ! 5)
   \<and> \<not> spec_band 450 (elements (sample_page\<lparr>scrollY := 450\<rparr>) ! 6)
   \<and> navLinkFor ''home'' (sample_page\<lparr>scrollY := 450\<rparr>) = Some 3
   \<and> navLinkFor ''about'' (sample_page\<lparr>scrollY := 450\<rparr>) = Some 4
   \<and> \<not> hasClass ''active'' (elements (updateActiveNavLink (sample_page\<lparr>scrollY := 450\<rparr>)) ! 3)
   \<and> hasClass ''active'' (elements (updateActiveNavLink (sample_page\<lparr>scrollY := 450\<rparr>)) ! 4)"
proof -
  let ?p = "sample_page\<lparr>scrollY := 450\<rparr>"
  note f = fold_sectionStep [where p = ?p and y = "scrollY ?p" and xs = "sections_with_id ?p",
      OF sections_with_id_ok]
  have s: "spec_band 450 (elements ?p ! 5)" "\<not> spec_band 450 (elements ?p ! 6)"
    by (simp_all add: spec_band_def sample_page_def fresh_page_def sample_elements_def blank_def)
  have "hasClass ''active'' (elements (updateActiveNavLink ?p) ! l) = (navLinkFor ''about'' ?p = Some l)"
    if "l < 15" "hasClass ''nav-link'' (elements ?p ! l)" for l
    using f that by (simp add: updateActiveNavLink_def sample_bands sample_sections)
  from this [of 3] this [of 4] s show ?thesis
    by (simp add: sample_sections)
qed

section \<open>The elements of the rendered markup\<close>

lemma scan_simps [simp]:
  "scan [] st = st"
  "scan (c # s) st = scan s (scan_step c st)"
  "scan (a @ b) st = scan b (scan a st)"
  by (simp_all add: scan_def)

lemma scan_None [simp]: "scan s None = None"
  by (induction s) simp_all

lemma inner_Nil [simp]: "inner [] st = Some st"
  by (simp add: inner_def)

lemma fold_inner_None [simp]: "fold inner_step s None = None"
  by (induction s) simp_all

lemma inner_Cons:
  "inner (c # s) st = (case inner_step c (Some st) of None \<Rightarrow> None | Some st' \<Rightarrow> inner s st')"
  by (simp add: inner_def split: option.splits)

lemma inner_append:
  "inner (a @ b) st = (case inner a st of None \<Rightarrow> None | Some st' \<Rightarrow> inner b st')"
  by (simp add: inner_def split: option.splits)

lemma inner_closed: "inner s ([], InText) = Some st \<Longrightarrow> s = [] \<and> st = ([], InText)"
  by (cases s) (auto simp: inner_def)

text \<open>What a step of the parser can and cannot do to the open elements.\<close>

lemma emit_top:
  "emit cl n [] = Some (stk', m') \<Longrightarrow> stk' \<noteq> [] \<and> m' = InText"
  by (auto simp: emit_def split: if_splits)

lemma emit_mode: "emit cl n stk = Some (stk', m') \<Longrightarrow> m' = InText"
  by (auto simp: emit_def split: if_splits list.splits)

lemma tag_step_top:
  "tag_step c cl n tm [] = Some ([], m') \<Longrightarrow> m' \<noteq> InText \<and> m' \<noteq> AfterLt"
  by (cases tm) (auto split: if_splits dest: emit_top)

lemma tag_step_mode: "tag_step c cl n tm stk = Some (stk', m') \<Longrightarrow> m' \<noteq> AfterLt"
  by (cases tm) (auto split: if_splits dest: emit_mode)

lemma parse_step_closed:
  "parse_step c ([], m) = Some ([], InText) \<Longrightarrow> m = InText \<or> m = AfterLt"
  by (cases m) (auto split: if_splits dest: tag_step_top)

lemma parse_step_lt:
  "parse_step c (stk, m) = Some (stk', AfterLt) \<Longrightarrow> stk' = stk \<and> (m = InText \<or> m = AfterLt)"
  by (cases m) (auto split: if_splits dest: tag_step_mode)

lemma inner_step_scan:
  assumes "inner_step c (Some (stk, m)) = Some (stk', m')"
  shows "scan_step c (Some (stk, m, cur, out)) =
     Some (if stk' = [] \<and> m' = InText then ([], InText, [], out @ [cur @ [c]])
           else (stk', m', cur @ [c], out))"
proof -
  from assms have start: "\<not> (stk = [] \<and> m = InText)"
    and step: "parse_step c (stk, m) = Some (stk', m')"
    and kept: "\<not> (stk = [] \<and> m = AfterLt \<and> (m' = InText \<or> m' = AfterLt))"
    by (auto split: if_splits option.splits)
  have a: "stk \<noteq> []" if "stk' = []" "m' = InText"
  proof
    assume "stk = []"
    with step that have "m = InText \<or> m = AfterLt"
      by (auto dest: parse_step_closed)
    with start kept \<open>stk = []\<close> that show False by auto
  qed
  have b: "\<not> (stk' = [] \<and> m' = AfterLt)"
  proof
    assume c: "stk' = [] \<and> m' = AfterLt"
    with step have "stk = [] \<and> (m = InText \<or> m = AfterLt)"
      by (auto dest: parse_step_lt)
    with start kept c show False by auto
  qed
  from step a b show ?thesis by auto
qed

lemma inner_scan:
  assumes "inner s (stk, m) = Some (stk', m')"
    and "\<not> (stk = [] \<and> m = InText)"
  shows "scan s (Some (stk, m, cur, out)) =
     Some (if stk' = [] \<and> m' = InText then ([], InText, [], out @ [cur @ s])
           else (stk', m', cur @ s, out))"
  using assms
proof (induction s arbitrary: stk m cur)
  case Nil
  then show ?case by auto
next
  case (Cons c s)
  from Cons.prems(1) obtain stk1 m1 where one: "inner_step c (Some (stk, m)) = Some (stk1, m1)"
    and rest: "inner s (stk1, m1) = Some (stk', m')"
    by (auto simp: inner_Cons split: option.splits)
  show ?case
  proof (cases "stk1 = [] \<and> m1 = InText")
    case True
    with rest have "s = [] \<and> (stk', m') = ([], InText)"
      by (auto dest: inner_closed)
    with True inner_step_scan [OF one, of cur out] show ?thesis
      by (simp del: scan_step.simps)
  next
    case False
    with inner_step_scan [OF one, of cur out]
    have "scan_step c (Some (stk, m, cur, out)) = Some (stk1, m1, cur @ [c], out)"
      by (simp del: scan_step.simps)
    with Cons.IH [OF rest False, of "cur @ [c]"] show ?thesis
      by (simp del: scan_step.simps)
  qed
qed

text \<open>An element that the run follows to its end is collected whole.\<close>

lemma element_scan:
  assumes "element_run e = Some ([], InText)"
  shows "scan e (Some ([], InText, [], out)) = Some ([], InText, [], out @ [e])"
proof (cases e)
  case Nil
  with assms show ?thesis by (simp add: element_run_def)
next
  case (Cons c s)
  with assms have c: "c = CHR ''<''" and s: "inner s ([], AfterLt) = Some ([], InText)"
    by (auto simp: element_run_def split: if_splits)
  have "scan s (Some ([], AfterLt, [c], out)) = Some ([], InText, [], out @ [[c] @ s])"
    using inner_scan [OF s, of "[c]" out] by simp
  then show ?thesis
    using c Cons by simp
qed

lemma element_run_literal:
  "element_run ((c # s) @ t) = (if c = CHR ''<'' then inner (s @ t) ([], AfterLt) else None)"
  by (simp add: element_run_def)

lemma inner_plain:
  "plain t \<Longrightarrow> stk \<noteq> [] \<Longrightarrow> inner t (stk, InText) = Some (stk, InText)"
  by (induction t) (auto simp: plain_def inner_Cons)

lemma inner_quoted:
  "quote_free t \<Longrightarrow> inner t (stk, InTag cl n ValueDQ) = Some (stk, InTag cl n ValueDQ)"
  by (induction t) (auto simp: quote_free_def inner_Cons)

lemma digit_char_range: "digit_char n \<in> set ''0123456789''"
  unfolding digit_char_def by (rule nth_mem) simp

lemma show_nat_digits: "set (show_nat n) \<subseteq> set ''0123456789''"
proof (induction n rule: show_nat.induct)
  case (1 n)
  show ?case
  proof (cases "n < 10")
    case True
    then show ?thesis
      using digit_char_range [of n] by (subst show_nat.simps) simp
  next
    case False
    then show ?thesis
      using 1 digit_char_range [of "n mod 10"] by (subst show_nat.simps) simp
  qed
qed

lemma show_nat_quote_free [simp]: "quote_free (show_nat n)"
  using show_nat_digits [of n] by (auto simp: quote_free_def)

lemma inner_concat:
  assumes "\<And>x. x \<in> set xs \<Longrightarrow> inner (f x) st = Some st"
  shows "inner (concat (map f xs)) st = Some st"
  using assms by (induction xs) (simp_all add: inner_append)

lemma inner_list:
  assumes "list_all ok xs"
    and "\<And>x. ok x \<Longrightarrow> inner (f x) st = Some st"
  shows "inner (concat (map f xs)) st = Some st"
  using assms by (intro inner_concat) (simp add: list_all_iff)

text \<open>The run over each template of the script.\<close>

lemmas run_simps = inner_append inner_Cons inner_plain inner_quoted is_alpha_def is_space_def
  element_run_literal emit_def nests_def ordinary_def heading_def closes_p_def

lemma lab_inner:
  "lab_ok l \<Longrightarrow> stk \<noteq> [] \<Longrightarrow> ''p'' \<notin> set stk \<Longrightarrow> ''a'' \<notin> set stk \<Longrightarrow>
     inner (lab_markup l) (stk, InText) = Some (stk, InText)"
  by (simp add: lab_markup_def lab_ok_def run_simps del: append.simps)

lemma labs_inner:
  "list_all lab_ok ls \<Longrightarrow> stk \<noteq> [] \<Longrightarrow> ''p'' \<notin> set stk \<Longrightarrow> ''a'' \<notin> set stk \<Longrightarrow>
     inner (concat (map lab_markup ls)) (stk, InText) = Some (stk, InText)"
  by (rule inner_list [where ok = lab_ok]) (simp_all add: lab_inner)

lemma semester_inner:
  "semester_ok s \<Longrightarrow> stk \<noteq> [] \<Longrightarrow> ''p'' \<notin> set stk \<Longrightarrow> ''a'' \<notin> set stk \<Longrightarrow>
     inner (semester_markup s) (stk, InText) = Some (stk, InText)"
  by (simp add: semester_markup_def semester_ok_def run_simps labs_inner del: append.simps)

lemma semesters_inner:
  "list_all semester_ok ss \<Longrightarrow> stk \<noteq> [] \<Longrightarrow> ''p'' \<notin> set stk \<Longrightarrow> ''a'' \<notin> set stk \<Longrightarrow>
     inner (concat (map semester_markup ss)) (stk, InText) = Some (stk, InText)"
  by (rule inner_list [where ok = semester_ok]) (simp_all add: semester_inner)

lemma module_run:
  "module_ok m \<Longrightarrow> element_run (module_element i m) = Some ([], InText)"
  by (simp add: module_element_def module_ok_def run_simps semesters_inner del: append.simps)

lemma tech_inner:
  "plain t \<Longrightarrow> stk \<noteq> [] \<Longrightarrow> inner (tech_markup t) (stk, InText) = Some (stk, InText)"
  by (simp add: tech_markup_def run_simps del: append.simps)

lemma techs_inner:
  "list_all plain ts \<Longrightarrow> stk \<noteq> [] \<Longrightarrow>
     inner (concat (map tech_markup ts)) (stk, InText) = Some (stk, InText)"
  by (rule inner_list [where ok = plain]) (simp_all add: tech_inner)

lemma coursework_run:
  "coursework_ok w \<Longrightarrow> element_run (coursework_element i w) = Some ([], InText)"
  by (simp add: coursework_element_def coursework_ok_def run_simps techs_inner del: append.simps)

lemma item_inner:
  "plain t \<Longrightarrow> stk \<noteq> [] \<Longrightarrow> ''p'' \<notin> set stk \<Longrightarrow>
     inner (item_markup t) (stk, InText) = Some (stk, InText)"
  by (simp add: item_markup_def run_simps del: append.simps)

lemma items_inner:
  "list_all plain ts \<Longrightarrow> stk \<noteq> [] \<Longrightarrow> ''p'' \<notin> set stk \<Longrightarrow>
     inner (concat (map item_markup ts)) (stk, InText) = Some (stk, InText)"
  by (rule inner_list [where ok = plain]) (simp_all add: item_inner)

lemma practical_run:
  "practical_ok w \<Longrightarrow> element_run (practical_element i w) = Some ([], InText)"
  by (simp add: practical_element_def practical_ok_def run_simps items_inner del: append.simps)

lemma feature_run:
  "plain t \<Longrightarrow> element_run (feature_element t) = Some ([], InText)"
  by (simp add: feature_element_def run_simps del: append.simps)

lemma feature_inner:
  "plain t \<Longrightarrow> ''p'' \<notin> set stk \<Longrightarrow>
     inner (feature_markup t) (''ul'' # stk, InText) = Some (''ul'' # stk, InText)"
  by (simp add: feature_markup_def feature_element_def run_simps del: append.simps)

lemma features_inner:
  "list_all plain ts \<Longrightarrow> ''p'' \<notin> set stk \<Longrightarrow>
     inner (concat (map feature_markup ts)) (''ul'' # stk, InText) = Some (''ul'' # stk, InText)"
  by (rule inner_list [where ok = plain]) (simp_all add: feature_inner)

lemma thesis_run:
  "thesis_ok t \<Longrightarrow> list_all plain fs \<Longrightarrow> element_run (thesis_element t fs) = Some ([], InText)"
  by (simp add: thesis_element_def thesis_head_def thesis_tail_def thesis_ok_def run_simps
      features_inner del: append.simps)

text \<open>A list of cards, each collected whole.\<close>

lemma cards_scan:
  assumes "\<And>x out. x \<in> set xs \<Longrightarrow>
     scan (f x) (Some ([], InText, [], out)) = Some ([], InText, [], out @ [g x])"
  shows "scan (concat (map f xs)) (Some ([], InText, [], out)) = Some ([], InText, [], out @ map g xs)"
  using assms by (induction xs arbitrary: out) simp_all

lemma enumerate_member: "(i, x) \<in> set (enumerate n xs) \<Longrightarrow> x \<in> set xs"
  by (auto simp: in_set_enumerate_eq)

lemma modules_top_level:
  assumes "list_all module_ok xs"
  shows "top_level_elements (modules_markup xs)
       = Some (map (\<lambda>(index, md). module_element index md) (enumerate 0 xs))"
proof -
  have "scan (case x of (index, md) \<Rightarrow> module_markup index md) (Some ([], InText, [], out))
      = Some ([], InText, [], out @ [case x of (index, md) \<Rightarrow> module_element index md])"
    if "x \<in> set (enumerate 0 xs)" for x out
  proof -
    obtain i m where x: "x = (i, m)" by (cases x)
    with that assms have "module_ok m"
      by (auto simp: list_all_iff dest: enumerate_member)
    then show ?thesis
      by (simp add: x module_markup_def element_scan [OF module_run])
  qed
  then have "scan (modules_markup xs) (Some ([], InText, [], []))
      = Some ([], InText, [], [] @ map (\<lambda>(index, md). module_element index md) (enumerate 0 xs))"
    unfolding modules_markup_def by (rule cards_scan)
  then show ?thesis by (simp add: top_level_elements_def)
qed


lemma courseworks_top_level:
  assumes "list_all coursework_ok xs"
  shows "top_level_elements (courseworks_markup xs)
       = Some (map (\<lambda>(index, work). coursework_element index work) (enumerate 0 xs))"
proof -
  have "scan (case x of (index, work) \<Rightarrow> coursework_markup index work) (Some ([], InText, [], out))
      = Some ([], InText, [], out @ [case x of (index, work) \<Rightarrow> coursework_element index work])"
    if "x \<in> set (enumerate 0 xs)" for x out
  proof -
    obtain i w where x: "x = (i, w)" by (cases x)
    with that assms have "coursework_ok w"
      by (auto simp: list_all_iff dest: enumerate_member)
    then show ?thesis
      by (simp add: x coursework_markup_def element_scan [OF coursework_run])
  qed
  then have "scan (courseworks_markup xs) (Some ([], InText, [], []))
      = Some ([], InText, [], [] @ map (\<lambda>(index, work). coursework_element index work) (enumerate 0 xs))"
    unfolding courseworks_markup_def by (rule cards_scan)
  then show ?thesis by (simp add: top_level_elements_def)
qed

lemma practicals_top_level:
  assumes "list_all practical_ok xs"
  shows "top_level_elements (practicals_markup xs)
       = Some (map (\<lambda>(index, work). practical_element index work) (enumerate 0 xs))"
proof -
  have "scan (case x of (index, work) \<Rightarrow> practical_markup index work) (Some ([], InText, [], out))
      = Some ([], InText, [], out @ [case x of (index, work) \<Rightarrow> practical_element index work])"
    if "x \<in> set (enumerate 0 xs)" for x out
  proof -
    obtain i w where x: "x = (i, w)" by (cases x)
    with that assms have "practical_ok w"
      by (auto simp: list_all_iff dest: enumerate_member)
    then show ?thesis
      by (simp add: x practical_markup_def element_scan [OF practical_run])
  qed
  then have "scan (practicals_markup xs) (Some ([], InText, [], []))
      = Some ([], InText, [], [] @ map (\<lambda>(index, work). practical_element index work) (enumerate 0 xs))"
    unfolding practicals_markup_def by (rule cards_scan)
  then show ?thesis by (simp add: top_level_elements_def)
qed

lemma thesis_top_level:
  assumes "thesis_ok t" and "list_all plain fs"
  shows "top_level_elements (thesis_markup t fs) = Some [thesis_element t fs]"
  by (simp add: top_level_elements_def thesis_markup_def element_scan [OF thesis_run [OF assms]])

lemma features_top_level:
  assumes "list_all plain fs"
  shows "top_level_elements (concat (map feature_markup fs)) = Some (map feature_element fs)"
proof -
  have "scan (feature_markup x) (Some ([], InText, [], out)) = Some ([], InText, [], out @ [feature_element x])"
    if "x \<in> set fs" for x out
  proof -
    from that assms have "plain x" by (simp add: list_all_iff)
    then show ?thesis
      by (simp add: feature_markup_def element_scan [OF feature_run])
  qed
  then have "scan (concat (map feature_markup fs)) (Some ([], InText, [], []))
      = Some ([], InText, [], [] @ map feature_element fs)"
    by (rule cards_scan)
  then show ?thesis by (simp add: top_level_elements_def)
qed

text \<open>Counting the elements gives the length of what the scanner collects.\<close>

lemma fold_count_None [simp]: "fold count_step s None = None"
  by (induction s) simp_all

lemma count_scan:
  "fold count_step s (Some (stk, m, length out))
     = map_option (\<lambda>(stk', m', cur', out'). (stk', m', length out'))
         (scan s (Some (stk, m, cur, out)))"
proof (induction s arbitrary: stk m cur out)
  case Nil
  show ?case by simp
next
  case (Cons c s)
  show ?case
  proof (cases "parse_step c (stk, m)")
    case None
    then show ?thesis by simp
  next
    case (Some st)
    obtain stk1 m1 where st: "st = (stk1, m1)" by (cases st)
    show ?thesis
    proof (cases "stk1 = [] \<and> m1 = InText \<and> stk \<noteq> []")
      case True
      with Some st Cons.IH [of "[]" InText "out @ [cur @ [c]]" "[]"] show ?thesis by simp
    next
      case False
      with Some st Cons.IH [of stk1 m1 out] show ?thesis by auto
    qed
  qed
qed

lemma element_count_length: "element_count s = map_option length (top_level_elements s)"
  using count_scan [of s "[]" InText "[]" "[]"]
  by (auto simp: element_count_def top_level_elements_def split: option.splits)


section \<open>What the render functions put on the page\<close>

lemma rendered_markup:
  "getElementById ''educationModules'' p = Some c \<Longrightarrow> educationModules p \<noteq> [] \<Longrightarrow>
     innerHTML (elements (renderEducationModules p) ! c) = modules_markup (educationModules p)"
  "getElementById ''courseworksList'' p = Some c \<Longrightarrow> courseworks p \<noteq> [] \<Longrightarrow>
     innerHTML (elements (renderCourseworks p) ! c) = courseworks_markup (courseworks p)"
  "getElementById ''practicalsList'' p = Some c \<Longrightarrow> practicalWorks p \<noteq> [] \<Longrightarrow>
     innerHTML (elements (renderPracticalWorks p) ! c) = practicals_markup (practicalWorks p)"
  "getElementById ''thesisContent'' p = Some c \<Longrightarrow> truthy (title (thesisData p)) \<Longrightarrow>
     keyFeatures (thesisData p) = Some fs \<Longrightarrow>
     innerHTML (elements (snd (renderThesis p)) ! c) = thesis_markup (thesisData p) fs"
  using getElementById_bound [of _ p c]
  by (simp_all add: renderEducationModules_def renderCourseworks_def renderPracticalWorks_def
      renderThesis_def)


lemma sample_documents_ok:
  "list_all module_ok sample_modules" "list_all coursework_ok sample_courseworks"
  "list_all practical_ok sample_practicals" "thesis_ok sample_thesis"
  "list_all plain [''Analysis'', ''Design'']"
  by (simp_all add: sample_modules_def sample_courseworks_def sample_practicals_def sample_thesis_def
      module_ok_def semester_ok_def lab_ok_def coursework_ok_def practical_ok_def thesis_ok_def
      plain_def quote_free_def)

lemma sample_containers:
  "getElementById ''educationModules'' (sample_page\<lparr>educationModules := a\<rparr>) = Some 7"
  "getElementById ''thesisContent'' (sample_page\<lparr>thesisData := b\<rparr>) = Some 8"
  "getElementById ''courseworksList'' (sample_page\<lparr>courseworks := c\<rparr>) = Some 9"
  "getElementById ''practicalsList'' (sample_page\<lparr>practicalWorks := d\<rparr>) = Some 10"
  by (simp_all add: getElementById_def sample_page_def fresh_page_def sample_elements_def blank_def)


lemma markup_coursework_count:
  "element_count (courseworks_markup [markup_coursework]) = Some 2"
  by code_simp

lemma quoting_courseworks_count:
  "element_count (courseworks_markup quoting_courseworks) = Some 1"
  by code_simp

lemma quoting_courseworks_plain:
  "list_all (\<lambda>w. plain (cw_title w) \<and> plain (cw_semester w) \<and> plain (cw_description w)
      \<and> list_all plain (technologies w) \<and> plain (cw_link w)) quoting_courseworks"
  by (simp add: quoting_courseworks_def quoting_link_def plain_def)


end
